theory Spec2Isabelle
  imports Complex_Main "HOL-Library.Word" "HOL-Library.Char_ord" "HOL-Library.List_Lexorder"
begin

unbundle bit_operations_syntax

section \<open>Python values and helpers shared by the modules\<close>

text \<open>
  The overlay is written in Python. Its exceptions are values of \<open>py_error\<close>; a call that
  can raise returns \<open>py_error + 'a\<close> with \<open>Inl\<close> for the exception. Wall-clock time
  (\<open>time.time()\<close>) is an argument \<open>now\<close> of every function that reads the clock, a real
  number of seconds. Random tokens (\<open>secrets.token_hex\<close>, \<open>secrets.token_urlsafe\<close>) are
  arguments as well.

  The standard library is not part of the repository. Where the code calls
  \<open>hashlib.sha256\<close>, \<open>json.dumps\<close> or \<open>json.loads\<close>, the model takes the library function as
  an argument, and a theorem names the facts about the library that it uses.
\<close>

datatype py_error =
    ValueError | JSONDecodeError | AttributeError | TypeError | KeyError | RecursionError
  | OverflowError | ZeroDivisionError

text \<open>A decoded JSON document, as \<open>json.loads\<close> returns it: a dict keeps its items in order.\<close>

datatype json =
    JNull
  | JBool bool
  | JInt int
  | JFloat real
  | JStr string
  | JList "json list"
  | JDict "(string \<times> json) list"

text \<open>Python slicing \<open>xs[:n]\<close>: a negative \<open>n\<close> counts from the end.\<close>

definition py_slice_to :: "int \<Rightarrow> 'a list \<Rightarrow> 'a list" where
  "py_slice_to n xs =
     (if 0 \<le> n then take (nat n) xs else take (nat (int (length xs) + n)) xs)"

text \<open>\<open>s.startswith(p)\<close>.\<close>

definition startswith :: "string \<Rightarrow> string \<Rightarrow> bool" where
  "startswith s p = (take (length p) s = p)"

text \<open>
  A Python dict keeps insertion order: \<open>d[k] = v\<close> replaces the value of an existing key in
  place and appends a new key at the end; \<open>del d[k]\<close> removes the key.
\<close>

definition dict_set :: "'k \<Rightarrow> 'v \<Rightarrow> ('k \<times> 'v) list \<Rightarrow> ('k \<times> 'v) list" where
  "dict_set k v d =
     (if k \<in> fst ` set d then map (\<lambda>(k', v'). if k' = k then (k', v) else (k', v')) d
      else d @ [(k, v)])"

definition dict_del :: "'k \<Rightarrow> ('k \<times> 'v) list \<Rightarrow> ('k \<times> 'v) list" where
  "dict_del k d = filter (\<lambda>(k', v'). k' \<noteq> k) d"

section \<open>sharding.py: sharded data and the DHT router\<close>

datatype DataType = TRACEROUTE | PEER_LOCATION | INFRASTRUCTURE | CELL_TOWER | MOBILE_TRACE

fun DataType_value :: "DataType \<Rightarrow> string" where
  "DataType_value TRACEROUTE = ''traceroute''"
| "DataType_value PEER_LOCATION = ''peer''"
| "DataType_value INFRASTRUCTURE = ''infrastructure''"
| "DataType_value CELL_TOWER = ''cell_tower''"
| "DataType_value MOBILE_TRACE = ''mobile_trace''"

definition GEOHASH_PRECISION_REGION :: nat where
  "GEOHASH_PRECISION_REGION = 3"

record ShardedData =
  data_id :: string
  data_type :: DataType
  geohash :: string
  data :: json
  timestamp :: real
  ttl :: int
  replication_factor :: int
  is_permanent :: bool
  source_peer_id :: string

definition is_expired :: "real \<Rightarrow> ShardedData \<Rightarrow> bool" where
  "is_expired now d =
     (if is_permanent d then False else now > timestamp d + real_of_int (ttl d))"

definition shard_key :: "ShardedData \<Rightarrow> string" where
  "shard_key d =
     (if geohash d \<noteq> [] then take GEOHASH_PRECISION_REGION (geohash d) else ''global'')
       @ '':'' @ DataType_value (data_type d)"

text \<open>
  \<open>DHTRouter\<close>. The argument \<open>h\<close> is \<open>int(hashlib.sha256(s.encode()).hexdigest(), 16)\<close>, the
  SHA-256 digest of a string read as an integer; \<open>node_id\<close> is the router's own id.
\<close>

definition get_distance :: "(string \<Rightarrow> int) \<Rightarrow> string \<Rightarrow> string \<Rightarrow> int" where
  "get_distance h node_id key = h node_id XOR h key"

definition should_store :: "(string \<Rightarrow> int) \<Rightarrow> string \<Rightarrow> string \<Rightarrow> int \<Rightarrow> int \<Rightarrow> bool" where
  "should_store h node_id shard_key' total_nodes replication =
     (if total_nodes \<le> replication then True
      else
        let distance = get_distance h node_id shard_key';
            threshold = (2 ^ 256) * replication div max total_nodes 1
        in distance < threshold)"

definition peer_distance :: "(string \<Rightarrow> int) \<Rightarrow> string \<Rightarrow> string \<times> string \<Rightarrow> int" where
  "peer_distance h shard_key' peer = h (fst peer) XOR h shard_key'"

text \<open>\<open>sorted(all_peers, key=peer_distance)\<close> is a stable sort, as \<open>sort_key\<close> is.\<close>

definition get_responsible_nodes ::
  "(string \<Rightarrow> int) \<Rightarrow> string \<Rightarrow> (string \<times> string) list \<Rightarrow> int \<Rightarrow> (string \<times> string) list" where
  "get_responsible_nodes h shard_key' all_peers replication =
     (if all_peers = [] then []
      else py_slice_to replication (sort_key (peer_distance h shard_key') all_peers))"

text \<open>
  \<open>ShardedStorage\<close>. The two caches are Python dicts from data id to item. The callback
  \<open>on_data_received\<close> is optional; the model records whether it is set and the items it was
  called with. \<open>store\<close> is the only writer of the caches, so a value's key is its
  \<open>data_id\<close>.
\<close>

record ShardedStorage =
  st_peer_id :: string
  st_my_geohash :: string
  has_on_data_received :: bool
  on_data_received_calls :: "ShardedData list"
  local_data :: "(string \<times> ShardedData) list"
  infrastructure_cache :: "(string \<times> ShardedData) list"
  viewed_shards :: "string set"
  peer_addresses :: "(string \<times> string) list"
  stats_local_items :: nat
  stats_infrastructure_items :: nat
  stats_shards_viewing :: nat

definition store :: "(string \<Rightarrow> int) \<Rightarrow> ShardedStorage \<Rightarrow> ShardedData \<Rightarrow> ShardedStorage \<times> bool" where
  "store h st d =
     (if is_permanent d \<or> data_type d \<in> {INFRASTRUCTURE, CELL_TOWER} then
        (let cache = dict_set (data_id d) d (infrastructure_cache st)
         in (st\<lparr>infrastructure_cache := cache, stats_infrastructure_items := length cache\<rparr>, True))
      else
        let total_nodes = int (length (peer_addresses st)) + 1 in
        if should_store h (st_peer_id st) (shard_key d) total_nodes (replication_factor d) then
          (let ld = dict_set (data_id d) d (local_data st)
           in (st\<lparr>local_data := ld, stats_local_items := length ld,
                   on_data_received_calls :=
                     (if has_on_data_received st then on_data_received_calls st @ [d]
                      else on_data_received_calls st)\<rparr>, True))
        else (st, False))"

definition cleanup_expired :: "real \<Rightarrow> ShardedStorage \<Rightarrow> ShardedStorage \<times> nat" where
  "cleanup_expired now st =
     (let expired_ids = map fst (filter (\<lambda>(k, d). is_expired now d) (local_data st));
          ld = foldl (\<lambda>m k. dict_del k m) (local_data st) expired_ids
      in (st\<lparr>local_data := ld, stats_local_items := length ld\<rparr>, length expired_ids))"

text \<open>
  \<open>_fetch_from_network\<close> asks up to three responsible peers over HTTP. What a peer answers
  is outside the program: \<open>net address\<close> is the outcome of the GET to that address. Either
  the request fails or the status is not 200 (\<open>Unreachable\<close>), or the body's items all parse
  with \<open>ShardedData.from_dict\<close> (\<open>Items\<close>), or \<open>from_dict\<close> raises after some items were
  appended (\<open>ItemsThenError\<close>; the exception is logged and the loop goes on).
\<close>

datatype fetch_reply =
    Unreachable
  | Items "ShardedData list"
  | ItemsThenError "ShardedData list"

fun fetch_loop ::
  "(string \<Rightarrow> fetch_reply) \<Rightarrow> (string \<times> string) list \<Rightarrow> ShardedData list \<Rightarrow> ShardedData list" where
  "fetch_loop net [] results = results"
| "fetch_loop net ((peer, address) # ps) results =
     (case net address of
        Unreachable \<Rightarrow> fetch_loop net ps results
      | Items xs \<Rightarrow>
          (let results' = results @ xs
           in if results' \<noteq> [] then results' else fetch_loop net ps results')
      | ItemsThenError xs \<Rightarrow> fetch_loop net ps (results @ xs))"

definition fetch_from_network ::
  "(string \<Rightarrow> int) \<Rightarrow> (string \<Rightarrow> fetch_reply) \<Rightarrow> ShardedStorage \<Rightarrow> string \<Rightarrow> DataType option
     \<Rightarrow> ShardedData list" where
  "fetch_from_network h net st geohash_prefix data_type' =
     (let shard_key' = geohash_prefix @ '':'' @
            (case data_type' of Some t \<Rightarrow> DataType_value t | None \<Rightarrow> ''all'');
          responsible = get_responsible_nodes h shard_key' (peer_addresses st) 3
      in if responsible = [] then [] else fetch_loop net (take 3 responsible) [])"

definition type_matches :: "DataType option \<Rightarrow> ShardedData \<Rightarrow> bool" where
  "type_matches data_type' d = (data_type' = None \<or> Some (data_type d) = data_type')"

text \<open>The scan of \<open>list(self._local_data.values())\<close>: expired items are deleted on the way.\<close>

fun scan_local ::
  "real \<Rightarrow> string \<Rightarrow> DataType option \<Rightarrow> ShardedData list
     \<Rightarrow> (string \<times> ShardedData) list \<times> ShardedData list
     \<Rightarrow> (string \<times> ShardedData) list \<times> ShardedData list" where
  "scan_local now p ty [] (ld, results) = (ld, results)"
| "scan_local now p ty (d # ds) (ld, results) =
     (if is_expired now d then scan_local now p ty ds (dict_del (data_id d) ld, results)
      else if startswith (geohash d) p \<and> type_matches ty d
           then scan_local now p ty ds (ld, results @ [d])
      else scan_local now p ty ds (ld, results))"

fun scan_infrastructure ::
  "string \<Rightarrow> DataType option \<Rightarrow> ShardedData list \<Rightarrow> ShardedData list \<Rightarrow> ShardedData list" where
  "scan_infrastructure p ty [] results = results"
| "scan_infrastructure p ty (d # ds) results =
     (if startswith (geohash d) p \<and> type_matches ty d \<and> data_id d \<notin> data_id ` set results
      then scan_infrastructure p ty ds (results @ [d])
      else scan_infrastructure p ty ds results)"

text \<open>The merge of the fetched items: a new data id is appended and stored.\<close>

fun merge_fetched ::
  "(string \<Rightarrow> int) \<Rightarrow> ShardedData list \<Rightarrow> ShardedStorage \<times> ShardedData list
     \<Rightarrow> ShardedStorage \<times> ShardedData list" where
  "merge_fetched h [] (st, results) = (st, results)"
| "merge_fetched h (d # ds) (st, results) =
     (if data_id d \<notin> data_id ` set results
      then merge_fetched h ds (fst (store h st d), results @ [d])
      else merge_fetched h ds (st, results))"

definition get_by_geohash ::
  "(string \<Rightarrow> int) \<Rightarrow> (string \<Rightarrow> fetch_reply) \<Rightarrow> real \<Rightarrow> ShardedStorage \<Rightarrow> string
     \<Rightarrow> DataType option \<Rightarrow> ShardedStorage \<times> ShardedData list" where
  "get_by_geohash h net now st geohash_prefix data_type' =
     (let (ld, results1) =
            scan_local now geohash_prefix data_type' (map snd (local_data st)) (local_data st, []);
          results2 =
            scan_infrastructure geohash_prefix data_type' (map snd (infrastructure_cache st)) results1;
          viewed = insert geohash_prefix (viewed_shards st);
          st1 = st\<lparr>local_data := ld, viewed_shards := viewed, stats_shards_viewing := card viewed\<rparr>
      in if length results2 < 10 \<and> peer_addresses st1 \<noteq> []
         then merge_fetched h (fetch_from_network h net st1 geohash_prefix data_type') (st1, results2)
         else (st1, results2))"

section \<open>p2p.py: the contribution proof\<close>

text \<open>
  The standard library as \<open>ContributionProof\<close> uses it:
  \<^item> \<open>sha256_hexdigest s\<close> is \<open>hashlib.sha256(s.encode()).hexdigest()\<close>;
  \<^item> \<open>json_dumps j\<close> is \<open>json.dumps(j, sort_keys=True)\<close>;
  \<^item> \<open>json_loads s\<close> is \<open>json.loads(s)\<close>, \<open>Inl\<close> the exception it raises. A \<open>JDict\<close>
    it returns lists the items of the decoded dict, each key once.
\<close>

record pylib =
  sha256_hexdigest :: "string \<Rightarrow> string"
  json_dumps :: "json \<Rightarrow> string"
  json_loads :: "string \<Rightarrow> py_error + json"

text \<open>\<open>d.get(k, default)\<close> on a decoded dict.\<close>

definition dict_get :: "(string \<times> 'v) list \<Rightarrow> string \<Rightarrow> 'v \<Rightarrow> 'v" where
  "dict_get d k dflt = (case map_of d k of Some v \<Rightarrow> v | None \<Rightarrow> dflt)"

text \<open>
  A decoded value as an operand of \<open>>=\<close> against an int: ints, floats and bools (a bool
  is an int in Python) are numbers, compared exactly; any other value makes the operator
  raise TypeError.
\<close>

fun py_number :: "json \<Rightarrow> py_error + real" where
  "py_number (JInt i) = Inr (real_of_int i)"
| "py_number (JFloat r) = Inr r"
| "py_number (JBool b) = Inr (if b then 1 else 0)"
| "py_number JNull = Inl TypeError"
| "py_number (JStr s) = Inl TypeError"
| "py_number (JList xs) = Inl TypeError"
| "py_number (JDict d) = Inl TypeError"

text \<open>
  A decoded value as the right operand of \<open>float - x\<close>. Python converts an int operand to
  a float first, and the conversion raises OverflowError for an int that rounds beyond the
  largest float, which is every int of magnitude \<open>2 ^ 1024 - 2 ^ 970\<close> or more. The
  difference itself is taken in the reals: the rounding of binary64 arithmetic is not
  modelled. \<open>finite_float\<close> is the range of the values the clock can return.
\<close>

definition FLOAT_INT_LIMIT :: int where
  "FLOAT_INT_LIMIT = 2 ^ 1024 - 2 ^ 970"

fun float_operand :: "json \<Rightarrow> py_error + real" where
  "float_operand (JInt i) =
     (if FLOAT_INT_LIMIT \<le> \<bar>i\<bar> then Inl OverflowError else Inr (real_of_int i))"
| "float_operand (JFloat r) = Inr r"
| "float_operand (JBool b) = Inr (if b then 1 else 0)"
| "float_operand JNull = Inl TypeError"
| "float_operand (JStr s) = Inl TypeError"
| "float_operand (JList xs) = Inl TypeError"
| "float_operand (JDict d) = Inl TypeError"

definition finite_float :: "real \<Rightarrow> bool" where
  "finite_float x = (\<bar>x\<bar> \<le> 2 ^ 1024 - 2 ^ 971)"

text \<open>
  \<open>s.rsplit(sep, 1)\<close> unpacked into two names: the parts around the last separator, or
  None where the string has no separator (the unpacking raises ValueError).
\<close>

definition rsplit1 :: "char \<Rightarrow> string \<Rightarrow> (string \<times> string) option" where
  "rsplit1 sep s =
     (if sep \<in> set s
      then Some (rev (drop 1 (dropWhile (\<lambda>c. c \<noteq> sep) (rev s))),
                 rev (takeWhile (\<lambda>c. c \<noteq> sep) (rev s)))
      else None)"

text \<open>\<open>int(x)\<close> of a float truncates toward zero.\<close>

definition py_int :: "real \<Rightarrow> int" where
  "py_int r = (if 0 \<le> r then \<lfloor>r\<rfloor> else \<lceil>r\<rceil>)"

text \<open>
  \<open>ContributionProof.generate\<close>. The counters are a dict of ints; \<open>nonce\<close> is the value of
  \<open>secrets.token_hex(8)\<close>.
\<close>

definition proof_data_of :: "pylib \<Rightarrow> real \<Rightarrow> string \<Rightarrow> string \<Rightarrow> (string \<times> int) list \<Rightarrow> (string \<times> json) list" where
  "proof_data_of lib now nonce peer_id contribution_data =
     [(''peer_id_hash'', JStr (take 16 (sha256_hexdigest lib peer_id))),
      (''traceroutes'', JInt (dict_get contribution_data ''traceroute_count'' 0)),
      (''uptime_hours'', JInt (dict_get contribution_data ''uptime_seconds'' 0 div 3600)),
      (''timestamp'', JInt (py_int now)),
      (''nonce'', JStr nonce)]"

definition generate :: "pylib \<Rightarrow> real \<Rightarrow> string \<Rightarrow> string \<Rightarrow> (string \<times> int) list \<Rightarrow> string" where
  "generate lib now nonce peer_id contribution_data =
     (let proof_data = JDict (proof_data_of lib now nonce peer_id contribution_data);
          proof_string = json_dumps lib proof_data;
          signature = take 32 (sha256_hexdigest lib proof_string)
      in proof_string @ ''|'' @ signature)"

text \<open>
  \<open>ContributionProof.verify\<close>. The \<open>try\<close> catches ValueError and JSONDecodeError and
  nothing else: an AttributeError of \<open>proof_data.get\<close> and a TypeError or OverflowError of
  the subtraction leave the function.
\<close>

definition verify :: "pylib \<Rightarrow> real \<Rightarrow> string \<Rightarrow> py_error + (bool \<times> json option)" where
  "verify lib now proof =
     (case rsplit1 CHR ''|'' proof of
        None \<Rightarrow> Inr (False, None)
      | Some (proof_string, signature) \<Rightarrow>
          let expected_sig = take 32 (sha256_hexdigest lib proof_string) in
          if signature \<noteq> expected_sig then Inr (False, None)
          else
            (case json_loads lib proof_string of
               Inl e \<Rightarrow> if e = ValueError \<or> e = JSONDecodeError then Inr (False, None) else Inl e
             | Inr proof_data \<Rightarrow>
                 (case proof_data of
                    JDict items \<Rightarrow>
                      (case float_operand (dict_get items ''timestamp'' (JInt 0)) of
                         Inl e \<Rightarrow> Inl e
                       | Inr t \<Rightarrow>
                           if now - t > 86400 then Inr (False, None)
                           else Inr (True, Some proof_data))
                  | _ \<Rightarrow> Inl AttributeError)))"

text \<open>\<open>not data\<close>: None and the empty dict are false; \<open>verify\<close> returns nothing else that is.\<close>

fun py_not :: "json option \<Rightarrow> bool" where
  "py_not None = True"
| "py_not (Some (JDict d)) = (d = [])"
| "py_not (Some JNull) = True"
| "py_not (Some (JBool b)) = (\<not> b)"
| "py_not (Some (JInt i)) = (i = 0)"
| "py_not (Some (JFloat r)) = (r = 0)"
| "py_not (Some (JStr s)) = (s = [])"
| "py_not (Some (JList xs)) = (xs = [])"

definition is_contributing :: "pylib \<Rightarrow> real \<Rightarrow> string \<Rightarrow> int \<Rightarrow> py_error + bool" where
  "is_contributing lib now proof min_traceroutes =
     (case verify lib now proof of
        Inl e \<Rightarrow> Inl e
      | Inr (is_valid, data') \<Rightarrow>
          if \<not> is_valid then Inr False
          else if py_not data' then Inr False
          else
            (case data' of
               Some (JDict items) \<Rightarrow>
                 (case py_number (dict_get items ''traceroutes'' (JInt 0)) of
                    Inl e \<Rightarrow> Inl e
                  | Inr n \<Rightarrow> Inr (n \<ge> real_of_int min_traceroutes))
             | _ \<Rightarrow> Inl AttributeError))"

text \<open>What the theorems below use of SHA-256: a hex digest is 64 hexadecimal digits.\<close>

definition hexdigest_ok :: "pylib \<Rightarrow> bool" where
  "hexdigest_ok lib =
     (\<forall>s. length (sha256_hexdigest lib s) = 64
        \<and> set (sha256_hexdigest lib s) \<subseteq> set ''0123456789abcdef'')"

text \<open>
  A finite excerpt of the library, for evaluating the model on concrete inputs: the listed
  digests, serializations and parses, with a fixed answer elsewhere.
\<close>

definition table_lib :: "(string \<times> string) list \<Rightarrow> (json \<times> string) list \<Rightarrow> (string \<times> json) list \<Rightarrow> pylib" where
  "table_lib digests dumped loaded =
     \<lparr>sha256_hexdigest = (\<lambda>s. case map_of digests s of Some d \<Rightarrow> d | None \<Rightarrow> replicate 64 CHR ''0''),
      json_dumps = (\<lambda>j. case map_of dumped j of Some s \<Rightarrow> s | None \<Rightarrow> ''null''),
      json_loads = (\<lambda>s. case map_of loaded s of Some j \<Rightarrow> Inr j | None \<Rightarrow> Inl JSONDecodeError)\<rparr>"

section \<open>p2p.py: the node, its mobile bridge and the full sync\<close>

definition P2P_PEER_TIMEOUT :: real where
  "P2P_PEER_TIMEOUT = 600"

definition P2P_DHT_REPLICATION :: nat where
  "P2P_DHT_REPLICATION = 3"

text \<open>
  \<open>SharedTraceroute\<close>. The fields that the handlers copy from a request body without
  looking at them are JSON values.
\<close>

record SharedTraceroute =
  traceroute_id :: string
  tr_source_peer_id :: string
  source_display_name :: json
  target_peer_id :: json
  target_ip :: json
  target_display_name :: json
  tr_timestamp :: real
  hops :: json
  total_time_ms :: json
  success :: json
  path_summary :: json
  is_mobile :: bool
  carrier :: json
  cell_tower_info :: json

definition to_dict :: "SharedTraceroute \<Rightarrow> json" where
  "to_dict t = JDict
     [(''traceroute_id'', JStr (traceroute_id t)),
      (''source_peer_id'', JStr (tr_source_peer_id t)),
      (''source_display_name'', source_display_name t),
      (''target_peer_id'', target_peer_id t),
      (''target_ip'', target_ip t),
      (''target_display_name'', target_display_name t),
      (''timestamp'', JFloat (tr_timestamp t)),
      (''hops'', hops t),
      (''total_time_ms'', total_time_ms t),
      (''success'', success t),
      (''path_summary'', path_summary t),
      (''is_mobile'', JBool (is_mobile t)),
      (''carrier'', carrier t),
      (''cell_tower_info'', cell_tower_info t)]"

text \<open>\<open>P2PPeer\<close>, with the fields the functions below read; the address is host and port.\<close>

record P2PPeer =
  p_peer_id :: string
  host :: string
  port :: int
  last_seen :: real

definition address :: "P2PPeer \<Rightarrow> string \<times> int" where
  "address p = (host p, port p)"

definition is_stale :: "real \<Rightarrow> P2PPeer \<Rightarrow> bool" where
  "is_stale now p = (now - last_seen p > P2P_PEER_TIMEOUT)"

text \<open>An entry of \<open>_mobile_tokens\<close>.\<close>

record mobile_token_data =
  mt_peer_id :: string
  mt_device_name :: json
  mt_created :: real
  mt_expires :: real
  mt_home_peer_id :: string

record topology_link =
  link_source :: string
  link_target :: string
  link_latency_ms :: json
  link_hop_count :: nat
  link_hops :: json
  link_timestamp :: json

record http_response =
  status :: nat
  body :: json

text \<open>
  \<open>P2PNode\<close>: the state that submitting a traceroute, the mobile bridge and the full sync
  read and write. \<open>http_posts\<close> lists the POST requests the node has sent to peers, each
  with the peer's address, the path and the JSON body; \<open>ws_sent\<close> lists the messages pushed
  to open WebSocket connections, and \<open>traceroute_received_calls\<close> the calls of the listener
  \<open>on_traceroute_received\<close>.
\<close>

record P2PNode =
  self_peer_id :: string
  self_host :: string
  actual_port :: int
  display_name :: string
  share_data :: bool
  peers :: "(string \<times> P2PPeer) list"
  topology_links :: "topology_link list"
  stat_traceroute_count :: int
  stat_total_hops :: int
  shared_traceroutes :: "(string \<times> SharedTraceroute) list"
  mobile_tokens :: "(string \<times> mobile_token_data) list"
  has_on_traceroute_received :: bool
  traceroute_received_calls :: "SharedTraceroute list"
  ws_clients :: nat
  ws_sent :: "json list"
  http_posts :: "((string \<times> int) \<times> string \<times> json) list"

text \<open>\<open>len(x)\<close> of a decoded value.\<close>

fun py_len :: "json \<Rightarrow> py_error + nat" where
  "py_len (JList xs) = Inr (length xs)"
| "py_len (JStr s) = Inr (length s)"
| "py_len (JDict d) = Inr (length d)"
| "py_len JNull = Inl TypeError"
| "py_len (JBool b) = Inl TypeError"
| "py_len (JInt i) = Inl TypeError"
| "py_len (JFloat r) = Inl TypeError"

text \<open>
  \<open>_add_traceroute_to_topology\<close> with \<open>_merge_topology_links\<close>, for the data that
  \<open>submit_traceroute\<close> builds: source and target are strings, the traceroute is a dict.
\<close>

definition add_traceroute_to_topology ::
  "P2PNode \<Rightarrow> string \<Rightarrow> string \<Rightarrow> (string \<times> json) list \<Rightarrow> py_error + P2PNode" where
  "add_traceroute_to_topology st source target traceroute =
     (if source = [] \<or> target = [] then Inr st
      else
        (case py_len (dict_get traceroute ''hops'' (JList [])) of
           Inl e \<Rightarrow> Inl e
         | Inr n \<Rightarrow>
             let link = \<lparr>link_source = source, link_target = target,
                         link_latency_ms = dict_get traceroute ''total_time_ms'' JNull,
                         link_hop_count = n,
                         link_hops = dict_get traceroute ''hops'' (JList []),
                         link_timestamp = dict_get traceroute ''timestamp'' JNull\<rparr>;
                 existing = (\<lambda>l. (link_source l, link_target l)) ` set (topology_links st);
                 links = (if (source, target) \<notin> existing then topology_links st @ [link]
                          else topology_links st)
             in Inr (st\<lparr>topology_links := links,
                       stat_traceroute_count := stat_traceroute_count st + 1,
                       stat_total_hops := stat_total_hops st + int n\<rparr>)))"

text \<open>\<open>_broadcast_to_peers\<close>: one POST to \<open>/p2p/broadcast\<close> per peer that is not stale.\<close>

definition broadcast_to_peers :: "real \<Rightarrow> P2PNode \<Rightarrow> SharedTraceroute \<Rightarrow> P2PNode" where
  "broadcast_to_peers now st t =
     (if peers st = [] \<or> \<not> share_data st then st
      else st\<lparr>http_posts := http_posts st @
             map (\<lambda>p. (address p, ''/p2p/broadcast'', JDict [(''traceroute'', to_dict t)]))
               (filter (\<lambda>p. \<not> is_stale now p) (map snd (peers st)))\<rparr>)"

text \<open>
  \<open>_store_and_broadcast_traceroute\<close>. Between caching the trace and notifying, the code
  classifies the first geolocated hop with the enrichment collaborator and stores it in the
  node's sharded storage, whose \<open>store\<close> calls back \<open>_on_sharded_data_received\<close> for a
  hop it keeps as traceroute data. The classification, the sharded storage and
  \<open>SharedTraceroute.from_dict\<close> of the hop are not part of this state: \<open>index_hop t\<close> is
  the outcome of that step, \<open>Inl\<close> the exception it raises, \<open>Inr None\<close> where the
  callback does not fire, and \<open>Inr (Some tr)\<close> where it fires with the trace \<open>tr\<close> that
  \<open>from_dict\<close> builds from the hop; the callback caches \<open>tr\<close> and hands it to the listener.
\<close>

definition on_sharded_data_received :: "P2PNode \<Rightarrow> SharedTraceroute \<Rightarrow> P2PNode" where
  "on_sharded_data_received st tr =
     (let st1 = st\<lparr>shared_traceroutes := dict_set (traceroute_id tr) tr (shared_traceroutes st)\<rparr>
      in if has_on_traceroute_received st1
         then st1\<lparr>traceroute_received_calls := traceroute_received_calls st1 @ [tr]\<rparr>
         else st1)"

definition store_and_broadcast_traceroute ::
  "(SharedTraceroute \<Rightarrow> py_error + SharedTraceroute option) \<Rightarrow> real \<Rightarrow> P2PNode
     \<Rightarrow> SharedTraceroute \<Rightarrow> py_error + P2PNode" where
  "store_and_broadcast_traceroute index_hop now st t =
     (let st0 = st\<lparr>shared_traceroutes := dict_set (traceroute_id t) t (shared_traceroutes st)\<rparr>
      in case index_hop t of
           Inl e \<Rightarrow> Inl e
         | Inr called_back \<Rightarrow>
             let st1 = (case called_back of
                          None \<Rightarrow> st0
                        | Some tr \<Rightarrow> on_sharded_data_received st0 tr);
                 st2 = (if has_on_traceroute_received st1
                        then st1\<lparr>traceroute_received_calls := traceroute_received_calls st1 @ [t]\<rparr>
                        else st1);
                 st3 = (if ws_clients st2 = 0 then st2
                        else st2\<lparr>ws_sent := ws_sent st2 @
                               [JDict [(''type'', JStr ''traceroute''), (''data'', to_dict t)]]\<rparr>)
             in Inr (broadcast_to_peers now st3 t))"

text \<open>
  \<open>submit_traceroute\<close>. \<open>tid\<close> is the value of \<open>secrets.token_hex(8)\<close>. The last loop
  (the code calls it the legacy method) posts the data to the first
  \<open>P2P_DHT_REPLICATION\<close> peers.
\<close>

definition submit_traceroute ::
  "(SharedTraceroute \<Rightarrow> py_error + SharedTraceroute option) \<Rightarrow> real \<Rightarrow> string \<Rightarrow> P2PNode \<Rightarrow> string
     \<Rightarrow> (string \<times> json) list \<Rightarrow> py_error + P2PNode" where
  "submit_traceroute index_hop now tid st target traceroute_data =
     (let data' = JDict [(''source_peer_id'', JStr (self_peer_id st)),
                        (''source_display_name'', JStr (display_name st)),
                        (''target_peer_id'', JStr target),
                        (''traceroute'', JDict traceroute_data)]
      in case add_traceroute_to_topology st (self_peer_id st) target traceroute_data of
           Inl e \<Rightarrow> Inl e
         | Inr st1 \<Rightarrow>
             (case (if share_data st1
                    then store_and_broadcast_traceroute index_hop now st1
                           \<lparr>traceroute_id = tid, tr_source_peer_id = self_peer_id st1,
                            source_display_name = JStr (display_name st1),
                            target_peer_id = JStr target,
                            target_ip = dict_get traceroute_data ''target'' (JStr ''''),
                            target_display_name = dict_get traceroute_data ''target_name'' JNull,
                            tr_timestamp = now,
                            hops = dict_get traceroute_data ''hops'' (JList []),
                            total_time_ms = dict_get traceroute_data ''total_time_ms'' JNull,
                            success = dict_get traceroute_data ''success'' (JBool False),
                            path_summary = dict_get traceroute_data ''path_summary'' JNull,
                            is_mobile = False, carrier = JNull, cell_tower_info = JNull\<rparr>
                    else Inr st1) of
                Inl e \<Rightarrow> Inl e
              | Inr st2 \<Rightarrow>
                  Inr (st2\<lparr>http_posts := http_posts st2 @
                         map (\<lambda>p. (address p, ''/p2p/traceroute'', data'))
                           (take P2P_DHT_REPLICATION (map snd (peers st2)))\<rparr>)))"

text \<open>
  \<open>_handle_mobile_traceroute\<close>: the header \<open>X-Mobile-Token\<close> (None when absent) and the
  request body as text; \<open>request.json()\<close> is \<open>json.loads\<close> of the body.
\<close>

definition handle_mobile_traceroute ::
  "pylib \<Rightarrow> (SharedTraceroute \<Rightarrow> py_error + SharedTraceroute option) \<Rightarrow> real \<Rightarrow> string \<Rightarrow> P2PNode
     \<Rightarrow> string option \<Rightarrow> string \<Rightarrow> py_error + (P2PNode \<times> http_response)" where
  "handle_mobile_traceroute lib index_hop now tid st token_header body_text =
     (let token = (case token_header of Some t \<Rightarrow> t | None \<Rightarrow> '''') in
      case map_of (mobile_tokens st) token of
        None \<Rightarrow> Inr (st, \<lparr>status = 401, body = JDict [(''error'', JStr ''Invalid token'')]\<rparr>)
      | Some token_data \<Rightarrow>
          if now > mt_expires token_data
          then Inr (st\<lparr>mobile_tokens := dict_del token (mobile_tokens st)\<rparr>,
                    \<lparr>status = 401, body = JDict [(''error'', JStr ''Token expired'')]\<rparr>)
          else
            (case json_loads lib body_text of
               Inl e \<Rightarrow> Inl e
             | Inr (JDict d) \<Rightarrow>
                 (let t = \<lparr>traceroute_id = tid, tr_source_peer_id = mt_peer_id token_data,
                           source_display_name = mt_device_name token_data,
                           target_peer_id = JStr (mt_home_peer_id token_data),
                           target_ip = dict_get d ''target_ip'' (JStr ''''),
                           target_display_name = JStr (display_name st),
                           tr_timestamp = now,
                           hops = dict_get d ''hops'' (JList []),
                           total_time_ms = dict_get d ''total_time_ms'' JNull,
                           success = dict_get d ''success'' (JBool False),
                           path_summary = dict_get d ''path_summary'' JNull,
                           is_mobile = True, carrier = JNull, cell_tower_info = JNull\<rparr>;
                      response = \<lparr>status = 200,
                                  body = JDict [(''accepted'', JBool True),
                                                (''traceroute_id'', JStr tid)]\<rparr>
                  in if share_data st
                     then (case store_and_broadcast_traceroute index_hop now st t of
                             Inl e \<Rightarrow> Inl e
                           | Inr st' \<Rightarrow> Inr (st', response))
                     else Inr (st\<lparr>shared_traceroutes :=
                                    dict_set tid t (shared_traceroutes st)\<rparr>, response))
             | Inr other \<Rightarrow> Inl AttributeError))"

definition cleanup_old_traceroutes :: "real \<Rightarrow> P2PNode \<Rightarrow> P2PNode" where
  "cleanup_old_traceroutes now st =
     st\<lparr>shared_traceroutes :=
          filter (\<lambda>(tid, t). tr_timestamp t > now - 86400) (shared_traceroutes st)\<rparr>"

text \<open>\<open>_handle_full_sync\<close>: the header \<open>X-Contribution-Proof\<close>, None when absent.\<close>

definition handle_full_sync ::
  "pylib \<Rightarrow> real \<Rightarrow> P2PNode \<Rightarrow> string option \<Rightarrow> py_error + (P2PNode \<times> http_response)" where
  "handle_full_sync lib now st proof_header =
     (let proof = (case proof_header of Some p \<Rightarrow> p | None \<Rightarrow> '''') in
      case is_contributing lib now proof 1 of
        Inl e \<Rightarrow> Inl e
      | Inr False \<Rightarrow>
          Inr (st, \<lparr>status = 200,
                    body = JDict [(''message'', JStr ''Contribute to access shared data''),
                                  (''traceroute_count'', JInt (int (length (shared_traceroutes st))))]\<rparr>)
      | Inr True \<Rightarrow>
          let st1 = cleanup_old_traceroutes now st
          in Inr (st1, \<lparr>status = 200,
                        body = JDict [(''traceroutes'', JList (map (to_dict \<circ> snd) (shared_traceroutes st1))),
                                      (''peer_count'', JInt (int (length (peers st1)))),
                                      (''timestamp'', JFloat now)]\<rparr>))"

text \<open>
  \<open>_handle_mobile_register\<close>: the header \<open>Authorization\<close> (None when absent) and the body
  as text. \<open>mobile_token\<close> is the value of \<open>secrets.token_urlsafe(32)\<close> and \<open>hex8\<close> that of
  \<open>secrets.token_hex(8)\<close>. The clock is read once.
\<close>

definition handle_mobile_register ::
  "pylib \<Rightarrow> real \<Rightarrow> string \<Rightarrow> string \<Rightarrow> P2PNode \<Rightarrow> string option \<Rightarrow> string
     \<Rightarrow> py_error + (P2PNode \<times> http_response)" where
  "handle_mobile_register lib now mobile_token hex8 st auth_header body_text =
     (case json_loads lib body_text of
        Inl e \<Rightarrow> Inl e
      | Inr data' \<Rightarrow>
          let auth_token = (case auth_header of Some a \<Rightarrow> a | None \<Rightarrow> '''') in
          if auth_token = []
          then Inr (st, \<lparr>status = 401, body = JDict [(''error'', JStr ''Authorization required'')]\<rparr>)
          else
            (case data' of
               JDict d \<Rightarrow>
                 Inr (st\<lparr>mobile_tokens := dict_set mobile_token
                             \<lparr>mt_peer_id = ''mobile_'' @ hex8,
                              mt_device_name = dict_get d ''device_name'' (JStr ''Mobile Device''),
                              mt_created = now,
                              mt_expires = now + 86400 * 30,
                              mt_home_peer_id = self_peer_id st\<rparr> (mobile_tokens st)\<rparr>,
                      \<lparr>status = 200,
                       body = JDict [(''token'', JStr mobile_token),
                                     (''home_server'',
                                        JDict [(''peer_id'', JStr (self_peer_id st)),
                                               (''display_name'', JStr (display_name st)),
                                               (''host'', JStr (self_host st)),
                                               (''port'', JInt (actual_port st))]),
                                     (''expires_in'', JInt (86400 * 30))]\<rparr>)
             | _ \<Rightarrow> Inl AttributeError))"

section \<open>discovery.py: the bencode codec\<close>

text \<open>
  The values the claim is about: ints, byte strings, lists and dicts. A dict is a Python
  dict, its items in insertion order and each key once; a key is hashable, so it is an int
  or a byte string. A byte is a \<open>char\<close>.
\<close>

datatype bkey = KInt int | KBytes string

datatype bval =
    BInt int
  | BBytes string
  | BList "bval list"
  | BDict "(bkey \<times> bval) list"

text \<open>\<open>str(n)\<close> of an int, as the f-strings \<open>f"i{data}e"\<close> and \<open>f"{len(data)}:"\<close> print it.\<close>

definition digit_char :: "nat \<Rightarrow> char" where
  "digit_char d = char_of (48 + d)"

fun str_nat :: "nat \<Rightarrow> string" where
  "str_nat n = (if n < 10 then [digit_char n] else str_nat (n div 10) @ [digit_char (n mod 10)])"

definition str_int :: "int \<Rightarrow> string" where
  "str_int i = (if i < 0 then ''-'' @ str_nat (nat (- i)) else str_nat (nat i))"

text \<open>
  \<open>int(b)\<close> of a byte string: surrounding whitespace is dropped, a sign may come first,
  and the digits may be grouped by single underscores. Anything else raises ValueError.
\<close>

definition isdigit :: "char \<Rightarrow> bool" where
  "isdigit c = (48 \<le> (of_char c :: nat) \<and> (of_char c :: nat) \<le> 57)"

definition isspace :: "char \<Rightarrow> bool" where
  "isspace c = ((of_char c :: nat) \<in> {9, 10, 11, 12, 13, 32})"

fun digits_value :: "nat \<Rightarrow> string \<Rightarrow> nat option" where
  "digits_value acc [] = Some acc"
| "digits_value acc [c] = (if isdigit c then Some (10 * acc + (of_char c - 48)) else None)"
| "digits_value acc (c # c' # cs) =
     (if isdigit c then digits_value (10 * acc + (of_char c - 48)) (c' # cs)
      else if c = CHR ''_'' \<and> isdigit c' then digits_value acc (c' # cs)
      else None)"

definition parse_nat :: "string \<Rightarrow> nat option" where
  "parse_nat s = (case s of [] \<Rightarrow> None | c # cs \<Rightarrow> if isdigit c then digits_value 0 s else None)"

definition strip :: "string \<Rightarrow> string" where
  "strip s = rev (dropWhile isspace (rev (dropWhile isspace s)))"

definition int_of_bytes :: "string \<Rightarrow> py_error + int" where
  "int_of_bytes s =
     (case strip s of
        [] \<Rightarrow> Inl ValueError
      | c # cs \<Rightarrow>
          if c = CHR ''-'' then (case parse_nat cs of None \<Rightarrow> Inl ValueError | Some n \<Rightarrow> Inr (- int n))
          else if c = CHR ''+'' then (case parse_nat cs of None \<Rightarrow> Inl ValueError | Some n \<Rightarrow> Inr (int n))
          else (case parse_nat (c # cs) of None \<Rightarrow> Inl ValueError | Some n \<Rightarrow> Inr (int n)))"

text \<open>
  \<open>sorted(data.items(), key=lambda x: x[0])\<close>: ints sort by value, byte strings
  lexicographically by byte; comparing an int with a byte string raises TypeError, which
  happens as soon as a dict with two or more items has keys of both kinds.
\<close>

fun is_KInt :: "bkey \<Rightarrow> bool" where
  "is_KInt (KInt i) = True"
| "is_KInt (KBytes s) = False"

fun key_int :: "bkey \<Rightarrow> int" where
  "key_int (KInt i) = i"
| "key_int (KBytes s) = 0"

fun key_bytes :: "bkey \<Rightarrow> string" where
  "key_bytes (KBytes s) = s"
| "key_bytes (KInt i) = []"

definition sorted_items :: "(bkey \<times> 'v) list \<Rightarrow> py_error + (bkey \<times> 'v) list" where
  "sorted_items items =
     (if list_all (\<lambda>(k, v). is_KInt k) items then Inr (sort_key (\<lambda>(k, v). key_int k) items)
      else if list_all (\<lambda>(k, v). \<not> is_KInt k) items then Inr (sort_key (\<lambda>(k, v). key_bytes k) items)
      else Inl TypeError)"

lemma sorted_items_set: "sorted_items items = Inr s \<Longrightarrow> set s = set items"
  by (auto simp: sorted_items_def split: if_splits)

text \<open>\<open>b"".join(...)\<close> over encodings, the first exception winning.\<close>

fun join_results :: "(py_error + string) list \<Rightarrow> py_error + string" where
  "join_results [] = Inr []"
| "join_results (Inl e # rs) = Inl e"
| "join_results (Inr s # rs) = (case join_results rs of Inl e \<Rightarrow> Inl e | Inr t \<Rightarrow> Inr (s @ t))"

definition encode_bytes :: "string \<Rightarrow> string" where
  "encode_bytes s = str_nat (length s) @ '':'' @ s"

fun encode_key :: "bkey \<Rightarrow> string" where
  "encode_key (KInt i) = ''i'' @ str_int i @ ''e''"
| "encode_key (KBytes s) = encode_bytes s"

function bencode_encode :: "bval \<Rightarrow> py_error + string" where
  "bencode_encode (BInt i) = Inr (''i'' @ str_int i @ ''e'')"
| "bencode_encode (BBytes s) = Inr (encode_bytes s)"
| "bencode_encode (BList xs) =
     (case join_results (map bencode_encode xs) of
        Inl e \<Rightarrow> Inl e
      | Inr s \<Rightarrow> Inr (''l'' @ s @ ''e''))"
| "bencode_encode (BDict items) =
     (case sorted_items items of
        Inl e \<Rightarrow> Inl e
      | Inr sorted' \<Rightarrow>
          (case join_results
                  (map (\<lambda>(k, v). case bencode_encode v of
                                    Inl e \<Rightarrow> Inl e
                                  | Inr s \<Rightarrow> Inr (encode_key k @ s)) sorted') of
             Inl e \<Rightarrow> Inl e
           | Inr s \<Rightarrow> Inr (''d'' @ s @ ''e'')))"
  by pat_completeness auto
termination
proof (relation "measure size")
  show "wf (measure size)" by simp
next
  fix xs :: "bval list" and x
  assume "x \<in> set xs"
  then show "(x, BList xs) \<in> measure size"
    by (induction xs) auto
next
  fix items sorted' :: "(bkey \<times> bval) list" and x :: "bkey \<times> bval" and k v
  assume s: "sorted_items items = Inr sorted'" and x: "x \<in> set sorted'" and kv: "(k, v) = x"
  from s have "set sorted' = set items" by (rule sorted_items_set)
  with x kv have "(k, v) \<in> set items" by simp
  then show "(v, BDict items) \<in> measure size"
    by (induction items) auto
qed

text \<open>
  \<open>_bencode_decode_recursive(data, idx)\<close>, as a function of the rest of the input
  \<open>data[idx:]\<close>; it returns the value and the rest after it. Each call and each turn of a
  loop takes one unit of fuel, and \<open>_bencode_decode\<close> starts with more than any input can
  use. The interpreter's own recursion limit is not modelled.
\<close>

definition split_at :: "char \<Rightarrow> string \<Rightarrow> (string \<times> string) option" where
  "split_at c s =
     (if c \<in> set s then Some (takeWhile (\<lambda>x. x \<noteq> c) s, drop 1 (dropWhile (\<lambda>x. x \<noteq> c) s))
      else None)"

fun to_key :: "bval \<Rightarrow> bkey option" where
  "to_key (BInt i) = Some (KInt i)"
| "to_key (BBytes s) = Some (KBytes s)"
| "to_key (BList xs) = None"
| "to_key (BDict d) = None"

fun bdecode :: "nat \<Rightarrow> string \<Rightarrow> py_error + (bval \<times> string)"
  and bdecode_list :: "nat \<Rightarrow> string \<Rightarrow> bval list \<Rightarrow> py_error + (bval list \<times> string)"
  and bdecode_dict :: "nat \<Rightarrow> string \<Rightarrow> (bkey \<times> bval) list
                         \<Rightarrow> py_error + ((bkey \<times> bval) list \<times> string)" where
  "bdecode 0 s = Inl RecursionError"
| "bdecode (Suc n) s =
     (if take 1 s = ''i'' then
        (case split_at CHR ''e'' (drop 1 s) of
           None \<Rightarrow> Inl ValueError
         | Some (num, rest) \<Rightarrow>
             (case int_of_bytes num of Inl e \<Rightarrow> Inl e | Inr i \<Rightarrow> Inr (BInt i, rest)))
      else if take 1 s = ''l'' then
        (case bdecode_list n (drop 1 s) [] of
           Inl e \<Rightarrow> Inl e
         | Inr (result, rest) \<Rightarrow> Inr (BList result, rest))
      else if take 1 s = ''d'' then
        (case bdecode_dict n (drop 1 s) [] of
           Inl e \<Rightarrow> Inl e
         | Inr (result, rest) \<Rightarrow> Inr (BDict result, rest))
      else if s \<noteq> [] \<and> isdigit (hd s) then
        (case split_at CHR '':'' s of
           None \<Rightarrow> Inl ValueError
         | Some (num, rest) \<Rightarrow>
             (case int_of_bytes num of
                Inl e \<Rightarrow> Inl e
              | Inr len \<Rightarrow> Inr (BBytes (take (nat len) rest), drop (nat len) rest)))
      else Inl ValueError)"
| "bdecode_list 0 s result = Inl RecursionError"
| "bdecode_list (Suc n) s result =
     (if take 1 s = ''e'' then Inr (result, drop 1 s)
      else
        (case bdecode n s of
           Inl e \<Rightarrow> Inl e
         | Inr (item, rest) \<Rightarrow> bdecode_list n rest (result @ [item])))"
| "bdecode_dict 0 s result = Inl RecursionError"
| "bdecode_dict (Suc n) s result =
     (if take 1 s = ''e'' then Inr (result, drop 1 s)
      else
        (case bdecode n s of
           Inl e \<Rightarrow> Inl e
         | Inr (key, rest) \<Rightarrow>
             (case bdecode n rest of
                Inl e \<Rightarrow> Inl e
              | Inr (val, rest') \<Rightarrow>
                  (case to_key key of
                     None \<Rightarrow> Inl TypeError
                   | Some k \<Rightarrow> bdecode_dict n rest' (dict_set k val result)))))"

definition bencode_decode :: "string \<Rightarrow> py_error + bval" where
  "bencode_decode data' =
     (case bdecode (2 * length data' + 1) data' of Inl e \<Rightarrow> Inl e | Inr (v, rest) \<Rightarrow> Inr v)"

text \<open>
  Python's \<open>==\<close> on these values: ints and byte strings by value, lists item by item,
  dicts by their keys and the values under them, whatever the order of the items.
\<close>

function py_eq :: "bval \<Rightarrow> bval \<Rightarrow> bool" where
  "py_eq (BInt i) w = (case w of BInt j \<Rightarrow> i = j | _ \<Rightarrow> False)"
| "py_eq (BBytes s) w = (case w of BBytes t \<Rightarrow> s = t | _ \<Rightarrow> False)"
| "py_eq (BList xs) w =
     (case w of
        BList ys \<Rightarrow> length xs = length ys \<and> list_all (\<lambda>(x, y). py_eq x y) (zip xs ys)
      | _ \<Rightarrow> False)"
| "py_eq (BDict a) w =
     (case w of
        BDict b \<Rightarrow>
          length a = length b \<and>
          list_all (\<lambda>(k, v). case map_of b k of None \<Rightarrow> False | Some v' \<Rightarrow> py_eq v v') a
      | _ \<Rightarrow> False)"
  by pat_completeness auto
termination
proof (relation "measure (\<lambda>(v, w). size v)")
  show "wf (measure (\<lambda>(v, w). size v))" by simp
next
  fix xs ys :: "bval list" and w :: bval and p :: "bval \<times> bval" and x y
  assume "p \<in> set (zip xs ys)" and "(x, y) = p"
  then have "x \<in> set xs" by (metis set_zip_leftD)
  then show "((x, y), BList xs, w) \<in> measure (\<lambda>(v, w). size v)"
    by (induction xs) auto
next
  fix a :: "(bkey \<times> bval) list" and w :: bval and b p k v v'
  assume "p \<in> set a" and "(k, v) = p"
  then have "(k, v) \<in> set a" by simp
  then show "((v, v'), BDict a, w) \<in> measure (\<lambda>(v, w). size v)"
    by (induction a) auto
qed

text \<open>A Python value of this type: every dict, at any depth, has each key once.\<close>

fun well_formed :: "bval \<Rightarrow> bool" where
  "well_formed (BInt i) = True"
| "well_formed (BBytes s) = True"
| "well_formed (BList xs) = list_all well_formed xs"
| "well_formed (BDict items) =
     (distinct (map fst items) \<and> list_all (\<lambda>(k, v). well_formed v) items)"

section \<open>sharding.py: the geohash codec\<close>

text \<open>
  Latitudes and longitudes are real numbers (the code's floats, without rounding); a
  range is the pair the code keeps in \<open>lat_range\<close> and \<open>lon_range\<close>.
\<close>

definition BASE32 :: string where
  "BASE32 = ''0123456789bcdefghjkmnpqrstuvwxyz''"

text \<open>
  \<open>encode_geohash\<close>. The \<open>while\<close> loop appends one character on every fifth turn, so
  for a precision \<open>p\<close> its body runs \<open>5 * p\<close> times (not at all when \<open>p \<le> 0\<close>); the first
  argument of \<open>encode_loop\<close> counts the turns that remain. \<open>(bits << 1) | 1\<close> is
  \<open>2 * bits + 1\<close>.
\<close>

fun encode_loop ::
  "nat \<Rightarrow> real \<Rightarrow> real \<Rightarrow> real \<times> real \<Rightarrow> real \<times> real \<Rightarrow> nat \<Rightarrow> nat \<Rightarrow> bool \<Rightarrow> string \<Rightarrow> string" where
  "encode_loop 0 lat lon lat_range lon_range bits bit_count is_lon gh = gh"
| "encode_loop (Suc n) lat lon lat_range lon_range bits bit_count is_lon gh =
     (let mid = (if is_lon then (fst lon_range + snd lon_range) / 2
                 else (fst lat_range + snd lat_range) / 2);
          upper = (if is_lon then lon \<ge> mid else lat \<ge> mid);
          bits' = (if upper then 2 * bits + 1 else 2 * bits);
          lon_range' = (if is_lon then (if upper then (mid, snd lon_range) else (fst lon_range, mid))
                        else lon_range);
          lat_range' = (if is_lon then lat_range
                        else (if upper then (mid, snd lat_range) else (fst lat_range, mid)))
      in if bit_count + 1 = 5
         then encode_loop n lat lon lat_range' lon_range' 0 0 (\<not> is_lon) (gh @ [BASE32 ! bits'])
         else encode_loop n lat lon lat_range' lon_range' bits' (bit_count + 1) (\<not> is_lon) gh)"

definition encode_geohash :: "real \<Rightarrow> real \<Rightarrow> int \<Rightarrow> string" where
  "encode_geohash lat lon precision =
     encode_loop (5 * nat precision) lat lon (- 90, 90) (- 180, 180) 0 0 True []"

text \<open>
  \<open>decode_geohash\<close>. \<open>BASE32.index(char.lower())\<close> raises ValueError for a character that
  is not in the alphabet; the inner loop reads the five bits of the index from bit 4 down
  to bit 0.
\<close>

definition lower_char :: "char \<Rightarrow> char" where
  "lower_char c =
     (if 65 \<le> (of_char c :: nat) \<and> (of_char c :: nat) \<le> 90 then char_of ((of_char c :: nat) + 32)
      else c)"

fun index_of :: "'a \<Rightarrow> 'a list \<Rightarrow> nat option" where
  "index_of x [] = None"
| "index_of x (y # ys) =
     (if x = y then Some 0 else (case index_of x ys of None \<Rightarrow> None | Some i \<Rightarrow> Some (Suc i)))"

fun decode_bits ::
  "nat \<Rightarrow> nat list \<Rightarrow> bool \<Rightarrow> real \<times> real \<Rightarrow> real \<times> real \<Rightarrow> (real \<times> real) \<times> (real \<times> real) \<times> bool" where
  "decode_bits idx [] is_lon lat_range lon_range = (lat_range, lon_range, is_lon)"
| "decode_bits idx (i # is) is_lon lat_range lon_range =
     (let bit = ((idx div 2 ^ i) mod 2 = 1) in
      if is_lon then
        (let mid = (fst lon_range + snd lon_range) / 2
         in decode_bits idx is (\<not> is_lon) lat_range
              (if bit then (mid, snd lon_range) else (fst lon_range, mid)))
      else
        (let mid = (fst lat_range + snd lat_range) / 2
         in decode_bits idx is (\<not> is_lon)
              (if bit then (mid, snd lat_range) else (fst lat_range, mid)) lon_range))"

fun decode_loop ::
  "string \<Rightarrow> bool \<Rightarrow> real \<times> real \<Rightarrow> real \<times> real \<Rightarrow> py_error + ((real \<times> real) \<times> (real \<times> real))" where
  "decode_loop [] is_lon lat_range lon_range = Inr (lat_range, lon_range)"
| "decode_loop (c # cs) is_lon lat_range lon_range =
     (case index_of (lower_char c) BASE32 of
        None \<Rightarrow> Inl ValueError
      | Some idx \<Rightarrow>
          (case decode_bits idx [4, 3, 2, 1, 0] is_lon lat_range lon_range of
             (lat_range', lon_range', is_lon') \<Rightarrow> decode_loop cs is_lon' lat_range' lon_range'))"

definition decode_geohash :: "string \<Rightarrow> py_error + (real \<times> real)" where
  "decode_geohash gh =
     (case decode_loop gh True (- 90, 90) (- 180, 180) of
        Inl e \<Rightarrow> Inl e
      | Inr (lat_range, lon_range) \<Rightarrow>
          Inr ((fst lat_range + snd lat_range) / 2, (fst lon_range + snd lon_range) / 2))"

text \<open>
  \<open>get_geohash_neighbors\<close>: the eight offsets in the order of the two \<open>for\<close> loops, south
  to north and, within a row, west to east.
\<close>

definition neighbor_cell :: "real \<Rightarrow> real \<Rightarrow> nat \<Rightarrow> real \<Rightarrow> real \<Rightarrow> string" where
  "neighbor_cell lat lon precision dlat dlon =
     (let nlat = lat + dlat;
          nlon = lon + dlon;
          nlon' = (if nlon > 180 then nlon - 360 else if nlon < - 180 then nlon + 360 else nlon);
          nlat' = max (- 90) (min 90 nlat)
      in encode_geohash nlat' nlon' (int precision))"

text \<open>
  \<open>x / n\<close> for a float \<open>x\<close> and an int \<open>n\<close>: the int is converted to a float first, which
  raises OverflowError beyond the range of a float, and a zero divisor raises
  ZeroDivisionError. The quotient is taken in the reals.
\<close>

definition float_div_int :: "real \<Rightarrow> int \<Rightarrow> py_error + real" where
  "float_div_int x n =
     (if FLOAT_INT_LIMIT \<le> \<bar>n\<bar> then Inl OverflowError
      else if n = 0 then Inl ZeroDivisionError
      else Inr (x / real_of_int n))"

definition get_geohash_neighbors :: "string \<Rightarrow> py_error + string list" where
  "get_geohash_neighbors gh =
     (case decode_geohash gh of
        Inl e \<Rightarrow> Inl e
      | Inr (lat, lon) \<Rightarrow>
          let precision = length gh in
          (case float_div_int 180 (2 ^ (precision * 5 div 2)) of
             Inl e \<Rightarrow> Inl e
           | Inr lat_delta \<Rightarrow>
               (case float_div_int 360 (2 ^ ((precision * 5 + 1) div 2)) of
                  Inl e \<Rightarrow> Inl e
                | Inr lon_delta \<Rightarrow>
                    Inr (concat (map (\<lambda>dlat.
                      map (\<lambda>dlon. neighbor_cell lat lon precision dlat dlon)
                        (filter (\<lambda>dlon. \<not> (dlat = 0 \<and> dlon = 0)) [- lon_delta, 0, lon_delta]))
                      [- lat_delta, 0, lat_delta])))))"

section \<open>The router's guarantees\<close>

lemma length_py_slice_to: "0 \<le> n \<Longrightarrow> length (py_slice_to n xs) = min (nat n) (length xs)"
  by (simp add: py_slice_to_def)

lemma length_py_slice_to_neg:
  "n < 0 \<Longrightarrow> int (length (py_slice_to n xs)) = max 0 (int (length xs) + n)"
  by (simp add: py_slice_to_def)

lemma set_py_slice_to: "set (py_slice_to n xs) \<subseteq> set xs"
proof (cases "0 \<le> n")
  case True
  then show ?thesis unfolding py_slice_to_def by (simp only: if_True) (rule set_take_subset)
next
  case False
  then show ?thesis unfolding py_slice_to_def by (simp only: if_False) (rule set_take_subset)
qed

lemma sorted_map_take: "sorted (map f xs) \<Longrightarrow> sorted (map f (take k xs))"
  by (simp add: take_map [symmetric])

lemma sorted_py_slice_to: "sorted (map f xs) \<Longrightarrow> sorted (map f (py_slice_to n xs))"
  by (simp add: py_slice_to_def sorted_map_take)

lemma peer_distance_xor: "peer_distance h key = (\<lambda>p. h (fst p) XOR h key)"
  by (rule ext) (simp add: peer_distance_def)

text \<open>
  The SHA-256 digests, read as integers, of three peer ids, a shard key and a node id; the
  hash of any other string is not needed below.
\<close>

definition sha256_int :: "string \<Rightarrow> int" where
  "sha256_int s =
     (if s = ''peer-one''
        then 0x8f243f6664b741f2b008d1dd11ae87673cea666b57d08a39daa91fb0617b7c45
      else if s = ''peer-two''
        then 0x6892130cd3b3feb51093d582ee97bcd5dca0b7c53b60a15ed388ab496a42038b
      else if s = ''peer-three''
        then 0x1094821f24f94869ba53445490822f8877eb7af4c00107bd3ebaee9feef3edce
      else if s = ''gcp:traceroute''
        then 0xf4a5ede6797fb9b6eae485b013a2eb4c3020f18e76de9424249f4730670582e3
      else if s = ''me''
        then 0x2744ccd10c7533bd736ad890f9dd5cab2adb27b07d500b9493f29cdc420cb2e0
      else 0)"

definition three_peers :: "(string \<times> string) list" where
  "three_peers =
     [(''peer-three'', ''10.0.0.3:8123''), (''peer-one'', ''10.0.0.1:8123''),
      (''peer-two'', ''10.0.0.2:8123'')]"

lemma three_peers_sorted:
  "sort_key (peer_distance sha256_int ''gcp:traceroute'') three_peers =
     [(''peer-one'', ''10.0.0.1:8123''), (''peer-two'', ''10.0.0.2:8123''),
      (''peer-three'', ''10.0.0.3:8123'')]"
  by (simp add: three_peers_def peer_distance_def sha256_int_def)

text \<open>
  Claim C6, as the code has it. \<open>should_store\<close> answers True whenever
  \<open>total_nodes \<le> replication\<close>, for every shard key. For every shard key, peer list and
  replication count, \<open>get_responsible_nodes\<close> returns peers in ascending order of the XOR
  of the hashed peer id with the hashed shard key; for a replication count that is not
  negative it returns at most \<open>replication\<close> of them (the first \<open>replication\<close> of the
  sorted peers, or all of them when there are fewer); for a negative one the slice
  \<open>[:replication]\<close> drops that many peers from the far end of the sorted list instead.
\<close>

theorem router_small_swarm_and_closest_nodes:
  "(total_nodes \<le> replication \<longrightarrow> should_store h node_id key total_nodes replication)
   \<and> sorted (map (\<lambda>p. h (fst p) XOR h key) (get_responsible_nodes h key all_peers replication))
   \<and> set (get_responsible_nodes h key all_peers replication) \<subseteq> set all_peers
   \<and> (0 \<le> replication \<longrightarrow>
        int (length (get_responsible_nodes h key all_peers replication)) \<le> replication
        \<and> length (get_responsible_nodes h key all_peers replication)
            = min (nat replication) (length all_peers))
   \<and> (replication < 0 \<longrightarrow>
        int (length (get_responsible_nodes h key all_peers replication))
          = max 0 (int (length all_peers) + replication))"
proof -
  let ?d = "\<lambda>p. h (fst p) XOR h key"
  let ?r = "get_responsible_nodes h key all_peers replication"
  have r: "?r = py_slice_to replication (sort_key ?d all_peers)"
    by (simp add: get_responsible_nodes_def peer_distance_xor py_slice_to_def)
  have srt: "sorted (map ?d (sort_key ?d all_peers))" by simp
  have a: "total_nodes \<le> replication \<longrightarrow> should_store h node_id key total_nodes replication"
    by (simp add: should_store_def)
  have b: "sorted (map ?d ?r)" unfolding r by (rule sorted_py_slice_to [OF srt])
  have "set (py_slice_to replication (sort_key ?d all_peers)) \<subseteq> set (sort_key ?d all_peers)"
    by (rule set_py_slice_to)
  then have c: "set ?r \<subseteq> set all_peers" unfolding r by simp
  have d: "length ?r = min (nat replication) (length all_peers)" if "0 \<le> replication"
    unfolding r using that by (simp add: length_py_slice_to)
  have e: "int (length ?r) = max 0 (int (length all_peers) + replication)" if "replication < 0"
    unfolding r using that by (simp add: length_py_slice_to_neg)
  have d': "int (length ?r) \<le> replication" if "0 \<le> replication"
    using d [OF that] that by linarith
  from a b c d d' e show ?thesis by blast
qed

text \<open>
  An instance with the SHA-256 values of the strings involved: three peers and
  replication 2, on a node that sees two nodes in total.
\<close>

theorem router_small_swarm_and_closest_nodes_witness:
  "(2::int) \<le> 2 \<and> should_store sha256_int ''me'' ''gcp:traceroute'' 2 2
   \<and> get_responsible_nodes sha256_int ''gcp:traceroute'' three_peers 2
       = [(''peer-one'', ''10.0.0.1:8123''), (''peer-two'', ''10.0.0.2:8123'')]
   \<and> int (length (get_responsible_nodes sha256_int ''gcp:traceroute'' three_peers 2)) \<le> 2
   \<and> sorted (map (\<lambda>p. sha256_int (fst p) XOR sha256_int ''gcp:traceroute'')
        (get_responsible_nodes sha256_int ''gcp:traceroute'' three_peers 2))
   \<and> int (length (get_responsible_nodes sha256_int ''gcp:traceroute'' three_peers (- 1))) = 2"
proof -
  have g: "get_responsible_nodes sha256_int ''gcp:traceroute'' three_peers 2
       = [(''peer-one'', ''10.0.0.1:8123''), (''peer-two'', ''10.0.0.2:8123'')]"
    unfolding get_responsible_nodes_def three_peers_sorted
    by (simp add: three_peers_def py_slice_to_def)
  from router_small_swarm_and_closest_nodes
    [of 2 2 sha256_int "''me''" "''gcp:traceroute''" three_peers]
  have "should_store sha256_int ''me'' ''gcp:traceroute'' 2 2
      \<and> sorted (map (\<lambda>p. sha256_int (fst p) XOR sha256_int ''gcp:traceroute'')
          (get_responsible_nodes sha256_int ''gcp:traceroute'' three_peers 2))
      \<and> int (length (get_responsible_nodes sha256_int ''gcp:traceroute'' three_peers 2)) \<le> 2"
    by simp
  moreover from router_small_swarm_and_closest_nodes
    [of 2 "- 1" sha256_int "''me''" "''gcp:traceroute''" three_peers]
  have "int (length (get_responsible_nodes sha256_int ''gcp:traceroute'' three_peers (- 1))) = 2"
    by (simp add: three_peers_def)
  ultimately show ?thesis using g by simp
qed

text \<open>
  With replication \<open>-1\<close> the same three peers give two entries, which is more than the
  replication count: the claim's bound does not hold for every replication count.
\<close>

theorem negative_replication_returns_more:
  "get_responsible_nodes sha256_int ''gcp:traceroute'' three_peers (- 1)
     = [(''peer-one'', ''10.0.0.1:8123''), (''peer-two'', ''10.0.0.2:8123'')]
   \<and> \<not> int (length (get_responsible_nodes sha256_int ''gcp:traceroute'' three_peers (- 1)))
         \<le> - 1"
proof -
  have g: "get_responsible_nodes sha256_int ''gcp:traceroute'' three_peers (- 1)
     = [(''peer-one'', ''10.0.0.1:8123''), (''peer-two'', ''10.0.0.2:8123'')]"
    unfolding get_responsible_nodes_def three_peers_sorted
    by (simp add: three_peers_def py_slice_to_def)
  show ?thesis unfolding g by simp
qed

section \<open>Permanent and infrastructure data stay\<close>

lemma map_of_dict_set_same: "map_of (dict_set k v d) k = Some v"
proof (cases "k \<in> fst ` set d")
  case True
  then have "map_of (map (\<lambda>(k', v'). if k' = k then (k', v) else (k', v')) d) k = Some v"
  proof (induction d)
    case Nil
    then show ?case by simp
  next
    case (Cons a d)
    obtain k1 v1 where a: "a = (k1, v1)" by (cases a)
    show ?case
    proof (cases "k1 = k")
      case True
      then show ?thesis by (simp add: a)
    next
      case False
      with Cons.prems a have "k \<in> fst ` set d" by auto
      with Cons.IH False show ?thesis by (simp add: a)
    qed
  qed
  with True show ?thesis by (simp add: dict_set_def)
next
  case False
  then have "map_of d k = None" by (simp add: map_of_eq_None_iff)
  with False show ?thesis by (simp add: dict_set_def map_add_def)
qed

lemma store_permanent_eq:
  assumes "is_permanent d \<or> data_type d = INFRASTRUCTURE \<or> data_type d = CELL_TOWER"
  shows "store h st d =
           (st\<lparr>infrastructure_cache := dict_set (data_id d) d (infrastructure_cache st),
               stats_infrastructure_items :=
                 length (dict_set (data_id d) d (infrastructure_cache st))\<rparr>, True)"
proof -
  from assms have c: "is_permanent d \<or> data_type d \<in> {INFRASTRUCTURE, CELL_TOWER}"
    by blast
  show ?thesis
    unfolding store_def Let_def by (simp only: c if_True)
qed

lemma store_permanent:
  assumes "is_permanent d \<or> data_type d = INFRASTRUCTURE \<or> data_type d = CELL_TOWER"
  shows "snd (store h st d) = True"
    and "map_of (infrastructure_cache (fst (store h st d))) (data_id d) = Some d"
  by (simp_all add: store_permanent_eq [OF assms] map_of_dict_set_same)

lemma cleanup_expired_infrastructure:
  "infrastructure_cache (fst (cleanup_expired now st)) = infrastructure_cache st"
  by (simp add: cleanup_expired_def Let_def)

text \<open>
  Claim C7. \<open>store\<close> of a permanent, infrastructure or cell-tower item puts the item into
  the infrastructure cache and returns True, whatever the router (the hash \<open>h\<close>, the peer
  table and the replication factor) would decide; a permanent item is not expired at any
  time; and \<open>cleanup_expired\<close> leaves the infrastructure cache as it was.
\<close>

theorem permanent_data_retained:
  "(is_permanent d \<or> data_type d = INFRASTRUCTURE \<or> data_type d = CELL_TOWER \<longrightarrow>
      snd (store h st d) = True
      \<and> map_of (infrastructure_cache (fst (store h st d))) (data_id d) = Some d)
   \<and> (is_permanent d \<longrightarrow> \<not> is_expired now d)
   \<and> infrastructure_cache (fst (cleanup_expired now st)) = infrastructure_cache st"
  using store_permanent [of d h st] cleanup_expired_infrastructure [of now st]
  by (simp add: is_expired_def)

text \<open>
  An instance: a permanent item with replication factor 0 on a node with one peer, so the
  router's \<open>should_store\<close> is False, and the item is still cached.
\<close>

definition example_item :: ShardedData where
  "example_item = \<lparr>data_id = ''tr_1_4'', data_type = TRACEROUTE, geohash = ''gcp'',
     data = JDict [(''ip'', JStr ''192.0.2.1'')], timestamp = 0, ttl = 86400,
     replication_factor = 0, is_permanent = True, source_peer_id = ''me''\<rparr>"

definition example_storage :: ShardedStorage where
  "example_storage = \<lparr>st_peer_id = ''me'', st_my_geohash = ''gcpvj'',
     has_on_data_received = False, on_data_received_calls = [],
     local_data = [], infrastructure_cache = [], viewed_shards = {},
     peer_addresses = [(''p2'', ''10.0.0.2:80'')],
     stats_local_items = 0, stats_infrastructure_items = 0, stats_shards_viewing = 0\<rparr>"

theorem permanent_data_retained_witness:
  "\<not> should_store (\<lambda>s. int (length s)) ''me'' (shard_key example_item) 2 0
   \<and> snd (store (\<lambda>s. int (length s)) example_storage example_item) = True
   \<and> map_of (infrastructure_cache (fst (store (\<lambda>s. int (length s)) example_storage example_item)))
        ''tr_1_4'' = Some example_item
   \<and> \<not> is_expired 1000000000 example_item
   \<and> infrastructure_cache (fst (cleanup_expired 1000000000 example_storage)) = []"
proof -
  have p: "is_permanent example_item" by (simp add: example_item_def)
  have i: "data_id example_item = ''tr_1_4''" by (simp add: example_item_def)
  have r: "\<not> should_store (\<lambda>s. int (length s)) ''me'' (shard_key example_item) 2 0"
    by (simp add: should_store_def get_distance_def)
  have c: "infrastructure_cache example_storage = []" by (simp add: example_storage_def)
  show ?thesis
    using permanent_data_retained
      [of example_item "\<lambda>s. int (length s)" example_storage 1000000000] p i r c
    by simp
qed

section \<open>The contribution proof: what verify accepts\<close>

lemma hexdigest_no_bar: "hexdigest_ok lib \<Longrightarrow> CHR ''|'' \<notin> set (take n (sha256_hexdigest lib s))"
proof
  assume h: "hexdigest_ok lib" and m: "CHR ''|'' \<in> set (take n (sha256_hexdigest lib s))"
  from m have "CHR ''|'' \<in> set (sha256_hexdigest lib s)" by (rule in_set_takeD)
  with h have "CHR ''|'' \<in> set ''0123456789abcdef''" unfolding hexdigest_ok_def by blast
  then show False by simp
qed

lemma hexdigest_take32: "hexdigest_ok lib \<Longrightarrow> length (take 32 (sha256_hexdigest lib s)) = 32"
  by (simp add: hexdigest_ok_def)

lemma rsplit1_append:
  assumes "sep \<notin> set sg"
  shows "rsplit1 sep (ps @ sep # sg) = Some (ps, sg)"
proof -
  have r: "rev (ps @ sep # sg) = rev sg @ sep # rev ps" by simp
  have ne: "\<And>x. x \<in> set (rev sg) \<Longrightarrow> x \<noteq> sep" using assms by auto
  have t: "takeWhile (\<lambda>c. c \<noteq> sep) (rev sg @ sep # rev ps) = rev sg"
    using takeWhile_append2 [of "rev sg" "\<lambda>c. c \<noteq> sep" "sep # rev ps", OF ne] by simp
  have d: "dropWhile (\<lambda>c. c \<noteq> sep) (rev sg @ sep # rev ps) = sep # rev ps"
    using dropWhile_append2 [of "rev sg" "\<lambda>c. c \<noteq> sep" "sep # rev ps", OF ne] by simp
  show ?thesis unfolding rsplit1_def r t d by simp
qed

lemma verify_split:
  assumes "rsplit1 CHR ''|'' prf = Some (ps, sg)"
  shows "verify lib now prf =
     (if sg \<noteq> take 32 (sha256_hexdigest lib ps) then Inr (False, None)
      else
        (case json_loads lib ps of
           Inl e \<Rightarrow> if e = ValueError \<or> e = JSONDecodeError then Inr (False, None) else Inl e
         | Inr proof_data \<Rightarrow>
             (case proof_data of
                JDict items \<Rightarrow>
                  (case float_operand (dict_get items ''timestamp'' (JInt 0)) of
                     Inl e \<Rightarrow> Inl e
                   | Inr t \<Rightarrow>
                       if now - t > 86400 then Inr (False, None)
                       else Inr (True, Some proof_data))
              | _ \<Rightarrow> Inl AttributeError)))"
  unfolding verify_def Let_def by (simp only: assms option.case prod.case)

lemma py_int_abs: "\<bar>real_of_int (py_int r)\<bar> \<le> \<bar>r\<bar>"
proof (cases "0 \<le> r")
  case True
  then have "py_int r = \<lfloor>r\<rfloor>" by (simp add: py_int_def)
  moreover have "0 \<le> \<lfloor>r\<rfloor>" using True by simp
  moreover have "real_of_int \<lfloor>r\<rfloor> \<le> r" by (rule of_int_floor_le)
  ultimately show ?thesis using True by simp
next
  case False
  then have "py_int r = \<lceil>r\<rceil>" by (simp add: py_int_def)
  moreover have "\<lceil>r\<rceil> \<le> 0" using False by (simp add: ceiling_le_zero)
  moreover have "r \<le> real_of_int \<lceil>r\<rceil>" by (rule le_of_int_ceiling)
  ultimately show ?thesis using False by simp
qed

lemma py_int_within_float:
  assumes "finite_float now"
  shows "\<not> FLOAT_INT_LIMIT \<le> \<bar>py_int now\<bar>"
proof
  assume "FLOAT_INT_LIMIT \<le> \<bar>py_int now\<bar>"
  then have "real_of_int FLOAT_INT_LIMIT \<le> real_of_int \<bar>py_int now\<bar>" by (simp only: of_int_le_iff)
  also have "\<dots> \<le> \<bar>now\<bar>" using py_int_abs [of now] by simp
  also have "\<dots> \<le> 2 ^ 1024 - 2 ^ 971" using assms unfolding finite_float_def .
  finally have "(2::real) ^ 1024 - 2 ^ 970 \<le> 2 ^ 1024 - 2 ^ 971"
    unfolding FLOAT_INT_LIMIT_def by simp
  then have "(2::real) ^ 971 \<le> 2 ^ 970" by linarith
  then show False by simp
qed

lemma small_within_float: "\<bar>i\<bar> \<le> 2 ^ 62 \<Longrightarrow> \<not> FLOAT_INT_LIMIT \<le> \<bar>i\<bar>"
proof
  assume a: "\<bar>i\<bar> \<le> 2 ^ 62" and b: "FLOAT_INT_LIMIT \<le> \<bar>i\<bar>"
  have "(2::int) ^ 1024 = 2 ^ 970 * 2 ^ 54" by (simp only: power_add [symmetric]) simp
  then have "FLOAT_INT_LIMIT = 2 ^ 970 * (2 ^ 54 - 1)"
    unfolding FLOAT_INT_LIMIT_def by (simp add: algebra_simps)
  moreover have "(2::int) ^ 62 < 2 ^ 970 * 1" by simp
  moreover have "(2::int) ^ 970 * 1 \<le> 2 ^ 970 * (2 ^ 54 - 1)" by (rule mult_left_mono) simp_all
  ultimately show False using a b by linarith
qed

lemma below_float_limit: "i \<le> 2 ^ 62 \<Longrightarrow> \<not> FLOAT_INT_LIMIT \<le> i"
  using small_within_float [of i] by (cases "0 \<le> i") (simp_all add: FLOAT_INT_LIMIT_def)

lemma finite_float_small: "\<bar>x\<bar> \<le> 2 ^ 62 \<Longrightarrow> finite_float x"
proof -
  assume a: "\<bar>x\<bar> \<le> 2 ^ 62"
  have "(2::real) ^ 1024 = 2 ^ 971 * 2 ^ 53" by (simp only: power_add [symmetric]) simp
  then have e: "(2::real) ^ 1024 - 2 ^ 971 = 2 ^ 971 * (2 ^ 53 - 1)" by (simp add: algebra_simps)
  have "(2::real) ^ 62 \<le> 2 ^ 971 * 1" by simp
  moreover have "(2::real) ^ 971 * 1 \<le> 2 ^ 971 * (2 ^ 53 - 1)" by (rule mult_left_mono) simp_all
  ultimately show ?thesis unfolding finite_float_def e using a by linarith
qed

lemma float_operand_number:
  "py_number j = Inr t \<Longrightarrow> float_operand j = Inr t \<or> float_operand j = Inl OverflowError"
  by (cases j) simp_all

lemma verify_signed_payload:
  assumes "hexdigest_ok lib"
    and "json_loads lib payload = Inr (JDict items)"
    and "float_operand (dict_get items ''timestamp'' (JInt 0)) = Inr t"
  shows "verify lib now (payload @ ''|'' @ take 32 (sha256_hexdigest lib payload)) =
           (if now - t > 86400 then Inr (False, None) else Inr (True, Some (JDict items)))"
proof -
  have "rsplit1 CHR ''|'' (payload @ CHR ''|'' # take 32 (sha256_hexdigest lib payload))
          = Some (payload, take 32 (sha256_hexdigest lib payload))"
    by (rule rsplit1_append) (rule hexdigest_no_bar [OF assms(1)])
  then have "rsplit1 CHR ''|'' (payload @ ''|'' @ take 32 (sha256_hexdigest lib payload))
          = Some (payload, take 32 (sha256_hexdigest lib payload))" by simp
  from verify_split [OF this] show ?thesis by (simp add: assms(2,3))
qed

lemma verify_flipped_signature:
  assumes h: "hexdigest_ok lib" and i: "i < 32"
    and c: "c \<noteq> take 32 (sha256_hexdigest lib payload) ! i"
  shows "verify lib now (payload @ ''|'' @ (take 32 (sha256_hexdigest lib payload))[i := c])
           = Inr (False, None)"
proof -
  define sg where "sg = take 32 (sha256_hexdigest lib payload)"
  have len: "length sg = 32" unfolding sg_def by (rule hexdigest_take32 [OF h])
  have nobar: "CHR ''|'' \<notin> set sg" unfolding sg_def by (rule hexdigest_no_bar [OF h])
  have c': "c \<noteq> sg ! i" unfolding sg_def by (rule c)
  have "verify lib now (payload @ ''|'' @ sg[i := c]) = Inr (False, None)"
  proof (cases "c = CHR ''|''")
    case False
    have "set (sg[i := c]) \<subseteq> insert c (set sg)" by (rule set_update_subset_insert)
    with False nobar have nb: "CHR ''|'' \<notin> set (sg[i := c])" by blast
    have sp: "rsplit1 CHR ''|'' (payload @ ''|'' @ sg[i := c]) = Some (payload, sg[i := c])"
      using rsplit1_append [OF nb, of payload] by simp
    have "sg[i := c] ! i = c" using i len by simp
    with c' have ne: "sg[i := c] \<noteq> sg" by metis
    then have "sg[i := c] \<noteq> take 32 (sha256_hexdigest lib payload)" unfolding sg_def .
    with verify_split [OF sp] show ?thesis by simp
  next
    case True
    have upd: "sg[i := c] = take i sg @ CHR ''|'' # drop (Suc i) sg"
      using i len True by (simp add: upd_conv_take_nth_drop)
    have nb: "CHR ''|'' \<notin> set (drop (Suc i) sg)"
      using nobar by (meson in_set_dropD)
    have "rsplit1 CHR ''|'' ((payload @ ''|'' @ take i sg) @ CHR ''|'' # drop (Suc i) sg)
            = Some (payload @ ''|'' @ take i sg, drop (Suc i) sg)"
      by (rule rsplit1_append [OF nb])
    then have sp: "rsplit1 CHR ''|'' (payload @ ''|'' @ sg[i := c])
            = Some (payload @ ''|'' @ take i sg, drop (Suc i) sg)"
      by (simp only: upd append_assoc)
    have "length (drop (Suc i) sg) < 32" using len i by simp
    moreover have "length (take 32 (sha256_hexdigest lib (payload @ ''|'' @ take i sg))) = 32"
      by (rule hexdigest_take32 [OF h])
    ultimately have ne: "drop (Suc i) sg \<noteq> take 32 (sha256_hexdigest lib (payload @ ''|'' @ take i sg))"
      by (metis less_irrefl)
    with verify_split [OF sp] show ?thesis by simp
  qed
  then show ?thesis unfolding sg_def .
qed

lemma verify_expired:
  assumes "rsplit1 CHR ''|'' prf = Some (ps, sg)"
    and "json_loads lib ps = Inr (JDict items)"
    and "py_number (dict_get items ''timestamp'' (JInt 0)) = Inr t"
    and "now - t > 86400"
  shows "verify lib now prf =
           (if sg = take 32 (sha256_hexdigest lib ps)
               \<and> float_operand (dict_get items ''timestamp'' (JInt 0)) = Inl OverflowError
            then Inl OverflowError else Inr (False, None))"
proof -
  from float_operand_number [OF assms(3)]
  consider "float_operand (dict_get items ''timestamp'' (JInt 0)) = Inr t"
    | "float_operand (dict_get items ''timestamp'' (JInt 0)) = Inl OverflowError" by blast
  then show ?thesis
  proof cases
    case 1
    with verify_split [OF assms(1), of lib now] assms(2,4) show ?thesis by simp
  next
    case 2
    with verify_split [OF assms(1), of lib now] assms(2) show ?thesis by simp
  qed
qed

lemma py_int_close: "r - 1 < real_of_int (py_int r) \<and> real_of_int (py_int r) < r + 1"
  unfolding py_int_def by (cases "0 \<le> r") (simp_all, linarith+)

lemma generate_eq:
  "generate lib now nonce peer_id cd =
     json_dumps lib (JDict (proof_data_of lib now nonce peer_id cd)) @ ''|'' @
       take 32 (sha256_hexdigest lib (json_dumps lib (JDict (proof_data_of lib now nonce peer_id cd))))"
  by (simp add: generate_def Let_def)

lemma timestamp_of_proof_data:
  "map_of items = map_of (proof_data_of lib now nonce peer_id cd) \<Longrightarrow>
     dict_get items ''timestamp'' (JInt 0) = JInt (py_int now)"
  by (simp add: dict_get_def proof_data_of_def)

lemma traceroutes_of_proof_data:
  "map_of items = map_of (proof_data_of lib now nonce peer_id cd) \<Longrightarrow>
     dict_get items ''traceroutes'' (JInt 0) = JInt (dict_get cd ''traceroute_count'' 0)"
  by (simp add: dict_get_def proof_data_of_def)

lemma is_contributing_valid:
  assumes "verify lib now q = Inr (True, Some (JDict items))" and "items \<noteq> []"
    and "py_number (dict_get items ''traceroutes'' (JInt 0)) = Inr n"
  shows "is_contributing lib now q m = Inr (real_of_int m \<le> n)"
  unfolding is_contributing_def using assms by simp

text \<open>
  Claim C5. For every subject id and counters, the proof that \<open>generate\<close> builds at a
  clock value \<open>now\<close> verifies at a time \<open>now'\<close> soon after (within 86399 seconds), given
  that the JSON library reads back the record it wrote; changing any one of the 32
  characters of the signature component to another character makes \<open>verify\<close> return
  \<open>(False, None)\<close>, at any time \<open>now''\<close>; and any proof string whose record carries a
  number as issue timestamp that is more than 86400 seconds before the verification time is
  never accepted: \<open>verify\<close> returns \<open>(False, None)\<close>, except that under a matching
  signature an int timestamp too large for a float makes the subtraction raise
  OverflowError, which leaves \<open>verify\<close> (the uncaught exceptions are the subject of
  Claim C4).
\<close>

theorem generated_proof_verifies_tampered_or_old_fails:
  assumes hex: "hexdigest_ok lib"
    and rt: "json_loads lib (json_dumps lib (JDict (proof_data_of lib now nonce peer_id cd)))
               = Inr (JDict items)"
    and same: "map_of items = map_of (proof_data_of lib now nonce peer_id cd)"
    and clock: "finite_float now"
    and soon: "now \<le> now'" "now' \<le> now + 86399"
  shows "verify lib now' (generate lib now nonce peer_id cd) = Inr (True, Some (JDict items))
       \<and> (\<forall>i c. i < 32 \<and> c \<noteq> generate lib now nonce peer_id cd
                                  ! (length (generate lib now nonce peer_id cd) - 32 + i) \<longrightarrow>
             verify lib now''
               ((generate lib now nonce peer_id cd)
                  [length (generate lib now nonce peer_id cd) - 32 + i := c]) = Inr (False, None))
       \<and> (\<forall>prf ps sg items' t.
             rsplit1 CHR ''|'' prf = Some (ps, sg) \<and> json_loads lib ps = Inr (JDict items')
               \<and> py_number (dict_get items' ''timestamp'' (JInt 0)) = Inr t \<and> now'' - t > 86400 \<longrightarrow>
             verify lib now'' prf =
               (if sg = take 32 (sha256_hexdigest lib ps)
                   \<and> float_operand (dict_get items' ''timestamp'' (JInt 0)) = Inl OverflowError
                then Inl OverflowError else Inr (False, None)))"
proof -
  define ps where "ps = json_dumps lib (JDict (proof_data_of lib now nonce peer_id cd))"
  define sg where "sg = take 32 (sha256_hexdigest lib ps)"
  have g: "generate lib now nonce peer_id cd = ps @ ''|'' @ sg"
    unfolding ps_def sg_def by (rule generate_eq)
  have len: "length sg = 32" unfolding sg_def by (rule hexdigest_take32 [OF hex])
  have ts: "float_operand (dict_get items ''timestamp'' (JInt 0)) = Inr (real_of_int (py_int now))"
    by (simp add: timestamp_of_proof_data [OF same] py_int_within_float [OF clock])
  have fresh: "\<not> now' - real_of_int (py_int now) > 86400"
    using py_int_close [of now] soon by linarith
  have a: "verify lib now' (generate lib now nonce peer_id cd) = Inr (True, Some (JDict items))"
    using verify_signed_payload [OF hex, of ps items "real_of_int (py_int now)" now'] rt ts fresh
    unfolding g sg_def ps_def by simp
  have b: "verify lib now''
               ((generate lib now nonce peer_id cd)
                  [length (generate lib now nonce peer_id cd) - 32 + i := c]) = Inr (False, None)"
    if "i < 32" and "c \<noteq> generate lib now nonce peer_id cd
                                  ! (length (generate lib now nonce peer_id cd) - 32 + i)" for i c
  proof -
    have pos: "length (ps @ ''|'' @ sg) - 32 + i = length (ps @ ''|'') + i"
      using len by simp
    have nth: "(ps @ ''|'' @ sg) ! (length (ps @ ''|'') + i) = sg ! i"
      using nth_append_length_plus [of "ps @ ''|''" sg i] by simp
    have upd: "(ps @ ''|'' @ sg)[length (ps @ ''|'') + i := c] = ps @ ''|'' @ sg[i := c]"
      using list_update_append [of "ps @ ''|''" sg "length (ps @ ''|'') + i" c] by simp
    from that(2) have "c \<noteq> sg ! i" unfolding g pos nth .
    then have "verify lib now'' (ps @ ''|'' @ sg[i := c]) = Inr (False, None)"
      unfolding sg_def by (rule verify_flipped_signature [OF hex that(1)])
    then show ?thesis unfolding g pos upd .
  qed
  have c: "verify lib now'' q =
               (if sg' = take 32 (sha256_hexdigest lib ps')
                   \<and> float_operand (dict_get items' ''timestamp'' (JInt 0)) = Inl OverflowError
                then Inl OverflowError else Inr (False, None))"
    if "rsplit1 CHR ''|'' q = Some (ps', sg')" "json_loads lib ps' = Inr (JDict items')"
       "py_number (dict_get items' ''timestamp'' (JInt 0)) = Inr t" "now'' - t > 86400"
    for q ps' sg' items' t
    using that by (rule verify_expired)
  from a b c show ?thesis by blast
qed

text \<open>
  An instance, with the digests that SHA-256 gives for the two strings hashed: node
  \<open>node-a\<close> with 5 traceroutes, issued at 1700000000; verified one minute later, with the
  last signature character changed, and 25 hours later.
\<close>

definition example_payload :: string where
  "example_payload = ''{\"nonce\": \"00112233aabbccdd\", \"peer_id_hash\": \"66570ff05a207404\", \"timestamp\": 1700000000, \"traceroutes\": 5, \"uptime_hours\": 2}''"

definition example_record :: "(string \<times> json) list" where
  "example_record =
     [(''nonce'', JStr ''00112233aabbccdd''), (''peer_id_hash'', JStr ''66570ff05a207404''),
      (''timestamp'', JInt 1700000000), (''traceroutes'', JInt 5), (''uptime_hours'', JInt 2)]"

definition example_lib :: pylib where
  "example_lib = table_lib
     [(''node-a'', ''66570ff05a2074043084d4aca94293ef067530dde94ff4e92b8d8459253eb779''),
      (example_payload, ''8c954bcea3949e97c7526c82a7a8961c022fc0c3515548f83e5363e90568bba0'')]
     [(JDict [(''peer_id_hash'', JStr ''66570ff05a207404''), (''traceroutes'', JInt 5),
              (''uptime_hours'', JInt 2), (''timestamp'', JInt 1700000000),
              (''nonce'', JStr ''00112233aabbccdd'')], example_payload)]
     [(example_payload, JDict example_record)]"

definition example_counters :: "(string \<times> int) list" where
  "example_counters = [(''traceroute_count'', 5), (''uptime_seconds'', 7500)]"

lemma example_payload_neq [simp]: "example_payload \<noteq> ''node-a''"
  by (simp add: example_payload_def)

lemma example_lib_hexdigest_ok: "hexdigest_ok example_lib"
  unfolding hexdigest_ok_def example_lib_def table_lib_def by simp

lemma example_proof_data:
  "proof_data_of example_lib 1700000000 ''00112233aabbccdd'' ''node-a'' example_counters =
     [(''peer_id_hash'', JStr ''66570ff05a207404''), (''traceroutes'', JInt 5),
      (''uptime_hours'', JInt 2), (''timestamp'', JInt 1700000000),
      (''nonce'', JStr ''00112233aabbccdd'')]"
  by (simp add: proof_data_of_def example_lib_def table_lib_def example_counters_def dict_get_def
      py_int_def)

lemma example_generate:
  "generate example_lib 1700000000 ''00112233aabbccdd'' ''node-a'' example_counters =
     example_payload @ ''|8c954bcea3949e97c7526c82a7a8961c''"
  unfolding generate_eq example_proof_data
  by (simp add: example_lib_def table_lib_def)

theorem generated_proof_verifies_tampered_or_old_fails_witness:
  "hexdigest_ok example_lib
   \<and> generate example_lib 1700000000 ''00112233aabbccdd'' ''node-a'' example_counters
       = example_payload @ ''|8c954bcea3949e97c7526c82a7a8961c''
   \<and> verify example_lib 1700000060 (example_payload @ ''|8c954bcea3949e97c7526c82a7a8961c'')
       = Inr (True, Some (JDict example_record))
   \<and> verify example_lib 1700000060 (example_payload @ ''|8c954bcea3949e97c7526c82a7a8961d'')
       = Inr (False, None)
   \<and> verify example_lib 1700090000 (example_payload @ ''|8c954bcea3949e97c7526c82a7a8961c'')
       = Inr (False, None)"
proof -
  let ?g = "generate example_lib 1700000000 ''00112233aabbccdd'' ''node-a'' example_counters"
  have rt: "json_loads example_lib (json_dumps example_lib (JDict (proof_data_of example_lib
              1700000000 ''00112233aabbccdd'' ''node-a'' example_counters))) = Inr (JDict example_record)"
    unfolding example_proof_data by (simp add: example_lib_def table_lib_def)
  have same: "map_of example_record = map_of (proof_data_of example_lib
              1700000000 ''00112233aabbccdd'' ''node-a'' example_counters)"
    unfolding example_proof_data example_record_def by (rule ext) simp
  have clock: "finite_float 1700000000" by (rule finite_float_small) simp
  have t1: "(1700000000::real) \<le> 1700000060" and t2: "(1700000060::real) \<le> 1700000000 + 86399"
    by simp_all
  note inst = generated_proof_verifies_tampered_or_old_fails
    [OF example_lib_hexdigest_ok rt same clock t1 t2]
  have len: "length ?g - 32 + 31 = length example_payload + 1 + 31"
    unfolding example_generate by simp
  have flip: "?g[length ?g - 32 + 31 := CHR ''d'']
                = example_payload @ ''|8c954bcea3949e97c7526c82a7a8961d''"
    unfolding len unfolding example_generate by (simp add: list_update_append)
  have nth: "?g ! (length ?g - 32 + 31) = CHR ''c''"
    unfolding len unfolding example_generate by (simp add: nth_append)
  have a: "verify example_lib 1700000060 ?g = Inr (True, Some (JDict example_record))"
    using inst by blast
  have "(31::nat) < 32 \<and> CHR ''d'' \<noteq> ?g ! (length ?g - 32 + 31)"
    unfolding nth by simp
  with inst [of 1700000060] have b: "verify example_lib 1700000060
      (?g[length ?g - 32 + 31 := CHR ''d'']) = Inr (False, None)"
    by blast
  have sp: "rsplit1 CHR ''|'' ?g = Some (example_payload, ''8c954bcea3949e97c7526c82a7a8961c'')"
    unfolding example_generate using rsplit1_append [of "CHR ''|''" "''8c954bcea3949e97c7526c82a7a8961c''" example_payload]
    by simp
  have ld: "json_loads example_lib example_payload = Inr (JDict example_record)"
    by (simp add: example_lib_def table_lib_def)
  have num: "py_number (dict_get example_record ''timestamp'' (JInt 0)) = Inr 1700000000"
    by (simp add: example_record_def dict_get_def)
  have fo: "float_operand (dict_get example_record ''timestamp'' (JInt 0)) = Inr 1700000000"
    by (simp add: example_record_def dict_get_def below_float_limit)
  have old: "(1700090000::real) - 1700000000 > 86400" by simp
  from inst [of 1700090000] sp ld num old
  have "verify example_lib 1700090000 ?g =
          (if ''8c954bcea3949e97c7526c82a7a8961c'' = take 32 (sha256_hexdigest example_lib example_payload)
              \<and> float_operand (dict_get example_record ''timestamp'' (JInt 0)) = Inl OverflowError
           then Inl OverflowError else Inr (False, None))"
    by blast
  then have c: "verify example_lib 1700090000 ?g = Inr (False, None)"
    unfolding fo by simp
  from a b c show ?thesis
    unfolding flip unfolding example_generate using example_lib_hexdigest_ok by simp
qed

section \<open>The contribution proof carries no key\<close>

text \<open>
  Claim C3, as the code has it. The signature is the first 32 hex digits of the SHA-256
  digest of the sorted-key serialization, and nothing else goes into it: \<open>generate\<close> and
  \<open>verify\<close> take no key. So for any payload that parses to a non-empty record with a
  timestamp that the subtraction from the clock accepts (a float, a bool, or an int within
  the range of a float) and that is not older than 24 hours, whatever counters it states,
  the payload followed by \<open>|\<close> and its own digest prefix is accepted by \<open>verify\<close>, and
  \<open>is_contributing\<close> compares the stated counter with the threshold.
\<close>

theorem unkeyed_digest_accepts_chosen_counters:
  assumes "hexdigest_ok lib"
    and "json_loads lib payload = Inr (JDict items)"
    and "float_operand (dict_get items ''timestamp'' (JInt 0)) = Inr t"
    and "now - t \<le> 86400"
    and "items \<noteq> []"
    and "py_number (dict_get items ''traceroutes'' (JInt 0)) = Inr n"
  shows "generate lib now0 nonce peer_id cd =
           json_dumps lib (JDict (proof_data_of lib now0 nonce peer_id cd)) @ ''|'' @
             take 32 (sha256_hexdigest lib
               (json_dumps lib (JDict (proof_data_of lib now0 nonce peer_id cd))))
       \<and> verify lib now (payload @ ''|'' @ take 32 (sha256_hexdigest lib payload))
           = Inr (True, Some (JDict items))
       \<and> is_contributing lib now (payload @ ''|'' @ take 32 (sha256_hexdigest lib payload)) m
           = Inr (real_of_int m \<le> n)"
proof -
  have v: "verify lib now (payload @ ''|'' @ take 32 (sha256_hexdigest lib payload))
           = Inr (True, Some (JDict items))"
    using verify_signed_payload [OF assms(1,2,3), of now] assms(4) by simp
  from v is_contributing_valid [OF v assms(5,6)] generate_eq [of lib now0 nonce peer_id cd]
  show ?thesis by simp
qed

text \<open>
  A forged proof: a payload written by hand that states a million traceroutes, followed by
  the first 32 digits of its SHA-256 digest. \<open>verify\<close> accepts it, which refutes the
  claim that nobody can build an accepted proof for counters of their choice without a key.
\<close>

definition forged_payload :: string where
  "forged_payload = ''{\"nonce\": \"0000000000000000\", \"peer_id_hash\": \"0000000000000000\", \"timestamp\": 1700000000, \"traceroutes\": 1000000, \"uptime_hours\": 0}''"

definition forged_record :: "(string \<times> json) list" where
  "forged_record =
     [(''nonce'', JStr ''0000000000000000''), (''peer_id_hash'', JStr ''0000000000000000''),
      (''timestamp'', JInt 1700000000), (''traceroutes'', JInt 1000000), (''uptime_hours'', JInt 0)]"

definition forged_lib :: pylib where
  "forged_lib = table_lib
     [(forged_payload, ''59e0525f84b2597c7227744ae6f943620c488204d11acf817f5cde95ca34411a'')]
     []
     [(forged_payload, JDict forged_record)]"

lemma forged_split:
  "rsplit1 CHR ''|'' (forged_payload @ ''|59e0525f84b2597c7227744ae6f94362'')
     = Some (forged_payload, ''59e0525f84b2597c7227744ae6f94362'')"
  using rsplit1_append [of "CHR ''|''" "''59e0525f84b2597c7227744ae6f94362''" forged_payload]
  by simp

theorem forged_proof_accepted:
  "verify forged_lib 1700000000 (forged_payload @ ''|59e0525f84b2597c7227744ae6f94362'')
     = Inr (True, Some (JDict forged_record))
   \<and> is_contributing forged_lib 1700000000
        (forged_payload @ ''|59e0525f84b2597c7227744ae6f94362'') 1 = Inr True"
proof -
  have v: "verify forged_lib 1700000000 (forged_payload @ ''|59e0525f84b2597c7227744ae6f94362'')
     = Inr (True, Some (JDict forged_record))"
    unfolding verify_split [OF forged_split]
    by (simp add: forged_lib_def table_lib_def forged_record_def dict_get_def below_float_limit)
  have "is_contributing forged_lib 1700000000
        (forged_payload @ ''|59e0525f84b2597c7227744ae6f94362'') 1 = Inr True"
    unfolding is_contributing_def v by (simp add: forged_record_def dict_get_def)
  with v show ?thesis by simp
qed

lemma forged_lib_hexdigest_ok: "hexdigest_ok forged_lib"
  unfolding hexdigest_ok_def forged_lib_def table_lib_def by simp

theorem unkeyed_digest_accepts_chosen_counters_witness:
  "hexdigest_ok forged_lib
   \<and> json_loads forged_lib forged_payload = Inr (JDict forged_record)
   \<and> take 32 (sha256_hexdigest forged_lib forged_payload) = ''59e0525f84b2597c7227744ae6f94362''
   \<and> verify forged_lib 1700000000 (forged_payload @ ''|59e0525f84b2597c7227744ae6f94362'')
       = Inr (True, Some (JDict forged_record))
   \<and> is_contributing forged_lib 1700000000
        (forged_payload @ ''|59e0525f84b2597c7227744ae6f94362'') 1000000 = Inr True"
proof -
  have ld: "json_loads forged_lib forged_payload = Inr (JDict forged_record)"
    by (simp add: forged_lib_def table_lib_def)
  have ts: "float_operand (dict_get forged_record ''timestamp'' (JInt 0)) = Inr 1700000000"
    by (simp add: forged_record_def dict_get_def below_float_limit)
  have tr: "py_number (dict_get forged_record ''traceroutes'' (JInt 0)) = Inr 1000000"
    by (simp add: forged_record_def dict_get_def)
  have fresh: "(1700000000::real) - 1700000000 \<le> 86400" by simp
  have ne: "forged_record \<noteq> []" by (simp add: forged_record_def)
  have dg: "take 32 (sha256_hexdigest forged_lib forged_payload) = ''59e0525f84b2597c7227744ae6f94362''"
    by (simp add: forged_lib_def table_lib_def)
  from unkeyed_digest_accepts_chosen_counters
         [OF forged_lib_hexdigest_ok ld ts fresh ne tr, of 0 "[]" "[]" "[]" 1000000]
  show ?thesis unfolding dg using forged_lib_hexdigest_ok ld by simp
qed

section \<open>Proof strings on which verify raises\<close>

text \<open>
  Claim C4 says that \<open>verify\<close> and \<open>is_contributing\<close> return for every string. The
  \<open>try\<close> in \<open>verify\<close> catches ValueError and JSONDecodeError only. A payload that is valid
  JSON but not a dict, with its own digest prefix as signature, reaches
  \<open>proof_data.get\<close> and raises AttributeError; a dict whose timestamp is a string raises
  TypeError at the subtraction. Neither is caught, in \<open>verify\<close> or in \<open>is_contributing\<close>.
\<close>

definition malformed_lib :: pylib where
  "malformed_lib = table_lib
     [(''[]'', ''4f53cda18c2baa0c0354bb5f9a3ecbe5ed12ab4d8e11ba873c2f11161202b945''),
      (''{\"timestamp\": \"soon\"}'', ''75fed5efcb5a22c343759ef3c3317610362fb0bb7ef9aef3d62982c7cb4510e3'')]
     []
     [(''[]'', JList []),
      (''{\"timestamp\": \"soon\"}'', JDict [(''timestamp'', JStr ''soon'')])]"

theorem verify_raises_on_signed_non_record:
  "verify malformed_lib 1700000000 ''[]|4f53cda18c2baa0c0354bb5f9a3ecbe5'' = Inl AttributeError
   \<and> is_contributing malformed_lib 1700000000 ''[]|4f53cda18c2baa0c0354bb5f9a3ecbe5'' 1
       = Inl AttributeError
   \<and> verify malformed_lib 1700000000
        ''{\"timestamp\": \"soon\"}|75fed5efcb5a22c343759ef3c3317610'' = Inl TypeError"
proof -
  have s1: "rsplit1 CHR ''|'' ''[]|4f53cda18c2baa0c0354bb5f9a3ecbe5''
              = Some (''[]'', ''4f53cda18c2baa0c0354bb5f9a3ecbe5'')"
    using rsplit1_append [of "CHR ''|''" "''4f53cda18c2baa0c0354bb5f9a3ecbe5''" "''[]''"] by simp
  have s2: "rsplit1 CHR ''|'' ''{\"timestamp\": \"soon\"}|75fed5efcb5a22c343759ef3c3317610''
              = Some (''{\"timestamp\": \"soon\"}'', ''75fed5efcb5a22c343759ef3c3317610'')"
    using rsplit1_append [of "CHR ''|''" "''75fed5efcb5a22c343759ef3c3317610''"
        "''{\"timestamp\": \"soon\"}''"] by simp
  have a: "verify malformed_lib 1700000000 ''[]|4f53cda18c2baa0c0354bb5f9a3ecbe5''
             = Inl AttributeError"
    unfolding verify_split [OF s1] by (simp add: malformed_lib_def table_lib_def)
  have b: "is_contributing malformed_lib 1700000000 ''[]|4f53cda18c2baa0c0354bb5f9a3ecbe5'' 1
             = Inl AttributeError"
    unfolding is_contributing_def a by simp
  have c: "verify malformed_lib 1700000000
        ''{\"timestamp\": \"soon\"}|75fed5efcb5a22c343759ef3c3317610'' = Inl TypeError"
    unfolding verify_split [OF s2] by (simp add: malformed_lib_def table_lib_def dict_get_def)
  from a b c show ?thesis by simp
qed

section \<open>get_by_geohash: local results and fetched results\<close>

text \<open>
  The two local scans keep an item only if its geohash starts with the queried prefix. So
  every returned item either has the prefix or came out of \<open>_fetch_from_network\<close>, and a
  node without peers returns items with the prefix only.
\<close>

lemma scan_local_prefix:
  "\<forall>d \<in> set results. startswith (geohash d) p \<Longrightarrow>
   \<forall>d \<in> set (snd (scan_local now p ty ds (ld, results))). startswith (geohash d) p"
proof (induction ds arbitrary: ld results)
  case Nil
  then show ?case by simp
next
  case (Cons a ds)
  show ?case
  proof (cases "is_expired now a")
    case True
    with Cons.IH [OF Cons.prems] show ?thesis by simp
  next
    case False
    show ?thesis
    proof (cases "startswith (geohash a) p \<and> type_matches ty a")
      case True
      with Cons.prems have "\<forall>d \<in> set (results @ [a]). startswith (geohash d) p" by simp
      from Cons.IH [OF this] False True show ?thesis by simp
    next
      case no: False
      from Cons.IH [OF Cons.prems] False no show ?thesis by auto
    qed
  qed
qed

lemma scan_infrastructure_prefix:
  "\<forall>d \<in> set results. startswith (geohash d) p \<Longrightarrow>
   \<forall>d \<in> set (scan_infrastructure p ty ds results). startswith (geohash d) p"
proof (induction ds arbitrary: results)
  case Nil
  then show ?case by simp
next
  case (Cons a ds)
  show ?case
  proof (cases "startswith (geohash a) p \<and> type_matches ty a \<and> data_id a \<notin> data_id ` set results")
    case True
    with Cons.prems have "\<forall>d \<in> set (results @ [a]). startswith (geohash d) p" by simp
    from Cons.IH [OF this] True show ?thesis by simp
  next
    case False
    from Cons.IH [OF Cons.prems] False show ?thesis by auto
  qed
qed

lemma merge_fetched_results:
  "set (snd (merge_fetched h fetched (st, results))) \<subseteq> set results \<union> set fetched"
proof (induction fetched arbitrary: st results)
  case Nil
  then show ?case by simp
next
  case (Cons a fetched)
  show ?case
  proof (cases "data_id a \<notin> data_id ` set results")
    case True
    from Cons.IH [of "fst (store h st a)" "results @ [a]"] True show ?thesis by auto
  next
    case False
    from Cons.IH [of st results] False show ?thesis by auto
  qed
qed

lemma get_by_geohash_local_or_fetched:
  assumes "d \<in> set (snd (get_by_geohash h net now st p ty))"
  shows "startswith (geohash d) p
       \<or> d \<in> set (fetch_from_network h net
            (st\<lparr>local_data := fst (scan_local now p ty (map snd (local_data st)) (local_data st, [])),
                viewed_shards := insert p (viewed_shards st),
                stats_shards_viewing := card (insert p (viewed_shards st))\<rparr>) p ty)"
proof -
  obtain ld r1 where s1: "scan_local now p ty (map snd (local_data st)) (local_data st, []) = (ld, r1)"
    by (cases "scan_local now p ty (map snd (local_data st)) (local_data st, [])")
  have p1: "\<forall>d \<in> set r1. startswith (geohash d) p"
    using scan_local_prefix [of "[]" p now ty "map snd (local_data st)" "local_data st"] s1 by simp
  define r2 where "r2 = scan_infrastructure p ty (map snd (infrastructure_cache st)) r1"
  have p2: "\<forall>d \<in> set r2. startswith (geohash d) p"
    unfolding r2_def by (rule scan_infrastructure_prefix [OF p1])
  define st1 where "st1 = st\<lparr>local_data := ld, viewed_shards := insert p (viewed_shards st),
       stats_shards_viewing := card (insert p (viewed_shards st))\<rparr>"
  have g: "get_by_geohash h net now st p ty =
     (if length r2 < 10 \<and> peer_addresses st1 \<noteq> []
      then merge_fetched h (fetch_from_network h net st1 p ty) (st1, r2) else (st1, r2))"
    unfolding get_by_geohash_def s1 r2_def st1_def by (simp add: Let_def)
  from assms have "d \<in> set r2 \<or> d \<in> set (fetch_from_network h net st1 p ty)"
    unfolding g using merge_fetched_results [of h "fetch_from_network h net st1 p ty" st1 r2]
    by (auto split: if_splits)
  with p2 show ?thesis unfolding st1_def using s1 by auto
qed

lemma get_by_geohash_no_peers:
  assumes "peer_addresses st = []" and "d \<in> set (snd (get_by_geohash h net now st p ty))"
  shows "startswith (geohash d) p"
proof -
  have "fetch_from_network h net st' p ty = []" if "peer_addresses st' = []" for st'
    using that by (simp add: fetch_from_network_def get_responsible_nodes_def)
  with get_by_geohash_local_or_fetched [OF assms(2)] assms(1) show ?thesis by simp
qed

text \<open>
  Claim C2 says that every returned item has the prefix, fetched items included. The merge
  loop appends a fetched item when its data id is new and checks nothing else. Here a node
  with empty caches and one peer asks for prefix \<open>gcp\<close>; the peer answers with an item whose
  geohash is \<open>u4p\<close>, and that item is returned.
\<close>

definition foreign_item :: ShardedData where
  "foreign_item = \<lparr>data_id = ''tr_9_1'', data_type = TRACEROUTE, geohash = ''u4p'',
     data = JDict [(''ip'', JStr ''198.51.100.9'')], timestamp = 1700000000, ttl = 86400,
     replication_factor = 3, is_permanent = False, source_peer_id = ''p2''\<rparr>"

theorem get_by_geohash_returns_foreign_item:
  "snd (get_by_geohash (\<lambda>s. int (length s)) (\<lambda>a. Items [foreign_item]) 1700000000
          example_storage ''gcp'' None) = [foreign_item]
   \<and> \<not> startswith (geohash foreign_item) ''gcp''"
  by (simp add: get_by_geohash_def example_storage_def fetch_from_network_def
      get_responsible_nodes_def py_slice_to_def foreign_item_def startswith_def)

section \<open>The mobile register endpoint\<close>

text \<open>The entry that a successful registration writes into \<open>_mobile_tokens\<close>.\<close>

definition issued_token :: "real \<Rightarrow> string \<Rightarrow> P2PNode \<Rightarrow> (string \<times> json) list \<Rightarrow> mobile_token_data" where
  "issued_token now hex8 st d =
     \<lparr>mt_peer_id = ''mobile_'' @ hex8,
      mt_device_name = dict_get d ''device_name'' (JStr ''Mobile Device''),
      mt_created = now, mt_expires = now + 86400 * 30, mt_home_peer_id = self_peer_id st\<rparr>"

lemma handle_mobile_register_unauthorized:
  assumes "json_loads lib body_text = Inr data'" and "auth_header = None \<or> auth_header = Some []"
  shows "handle_mobile_register lib now tok hex8 st auth_header body_text =
           Inr (st, \<lparr>status = 401, body = JDict [(''error'', JStr ''Authorization required'')]\<rparr>)"
  using assms by (auto simp: handle_mobile_register_def)

lemma handle_mobile_register_authorized:
  assumes "json_loads lib body_text = Inr (JDict d)" and "a \<noteq> []"
  shows "handle_mobile_register lib now tok hex8 st (Some a) body_text =
           Inr (st\<lparr>mobile_tokens := dict_set tok (issued_token now hex8 st d) (mobile_tokens st)\<rparr>,
                \<lparr>status = 200,
                 body = JDict [(''token'', JStr tok),
                               (''home_server'',
                                  JDict [(''peer_id'', JStr (self_peer_id st)),
                                         (''display_name'', JStr (display_name st)),
                                         (''host'', JStr (self_host st)),
                                         (''port'', JInt (actual_port st))]),
                               (''expires_in'', JInt 2592000)]\<rparr>)"
  using assms by (simp add: handle_mobile_register_def issued_token_def)

text \<open>
  Claim C10, for a request whose body is a JSON object. The endpoint answers 401, and
  changes nothing, exactly when the Authorization header is absent or empty. For any
  other header value it answers 200 with the token it drew and records the token with
  creation time \<open>now\<close> and expiry 30 days later; the outcome is the same for every non-empty
  header value, so the value is compared with nothing.
\<close>

theorem mobile_register_checks_presence_only:
  assumes "json_loads lib body_text = Inr (JDict d)"
  shows "\<exists>st' r. handle_mobile_register lib now tok hex8 st auth_header body_text = Inr (st', r)
           \<and> (status r = 401 \<longleftrightarrow> auth_header = None \<or> auth_header = Some [])
           \<and> (status r = 401 \<longrightarrow> st' = st)
           \<and> (status r \<noteq> 401 \<longrightarrow>
                 status r = 200
                 \<and> dict_get (case body r of JDict b \<Rightarrow> b | _ \<Rightarrow> []) ''token'' JNull = JStr tok
                 \<and> (\<exists>td. map_of (mobile_tokens st') tok = Some td
                        \<and> mt_created td = now \<and> mt_expires td = now + 30 * 86400)
                 \<and> (\<forall>a. a \<noteq> [] \<longrightarrow>
                        handle_mobile_register lib now tok hex8 st (Some a) body_text = Inr (st', r)))"
proof (cases "auth_header = None \<or> auth_header = Some []")
  case True
  from handle_mobile_register_unauthorized [OF assms True, of now tok hex8 st]
  show ?thesis using True by simp
next
  case False
  then obtain a where a: "auth_header = Some a" "a \<noteq> []" by (cases auth_header) auto
  have tk: "map_of (dict_set tok (issued_token now hex8 st d) (mobile_tokens st)) tok
              = Some (issued_token now hex8 st d)"
    by (rule map_of_dict_set_same)
  have ct: "mt_created (issued_token now hex8 st d) = now"
    and ex: "mt_expires (issued_token now hex8 st d) = now + 30 * 86400"
    by (simp_all add: issued_token_def)
  have all: "\<And>a'. a' \<noteq> [] \<Longrightarrow> handle_mobile_register lib now tok hex8 st (Some a') body_text
      = handle_mobile_register lib now tok hex8 st (Some a) body_text"
    using handle_mobile_register_authorized [OF assms] a(2) by simp
  show ?thesis
    unfolding a(1) using all tk ct ex
    by (simp add: handle_mobile_register_authorized [OF assms a(2)] a dict_get_def)
qed

text \<open>
  A node with sharing disabled, one peer and one registered mobile device; and an excerpt
  of the library with the parses of the request bodies used below.
\<close>

definition home_node :: P2PNode where
  "home_node =
     \<lparr>self_peer_id = ''home'', self_host = ''192.0.2.10'', actual_port = 8123,
      display_name = ''Home'', share_data = False,
      peers = [(''p2'', \<lparr>p_peer_id = ''p2'', host = ''198.51.100.2'', port = 8123,
                          last_seen = 1700000000\<rparr>)],
      topology_links = [], stat_traceroute_count = 0, stat_total_hops = 0,
      shared_traceroutes = [],
      mobile_tokens = [(''tok-1'', \<lparr>mt_peer_id = ''mobile_0011223344556677'',
                                   mt_device_name = JStr ''Pixel'', mt_created = 1699990000,
                                   mt_expires = 1702582000, mt_home_peer_id = ''home''\<rparr>)],
      has_on_traceroute_received = False, traceroute_received_calls = [],
      ws_clients = 0, ws_sent = [], http_posts = []\<rparr>"

definition bridge_lib :: pylib where
  "bridge_lib = table_lib
     [(forged_payload, ''59e0525f84b2597c7227744ae6f943620c488204d11acf817f5cde95ca34411a'')]
     []
     [(forged_payload, JDict forged_record),
      (''[]'', JList []),
      (''{\"device_name\": \"Pixel\"}'', JDict [(''device_name'', JStr ''Pixel'')]),
      (''{\"target_ip\": \"192.0.2.10\", \"hops\": []}'',
         JDict [(''target_ip'', JStr ''192.0.2.10''), (''hops'', JList [])])]"

text \<open>
  The claim as stated does not hold for every request: the handler parses the body before
  it looks at the header, and reads \<open>device_name\<close> from it afterwards. With a non-empty
  header and the body \<open>[]\<close> no token is issued (AttributeError), and with no header and a
  body that is not JSON the request ends in JSONDecodeError, not in a 401 response.
\<close>

theorem mobile_register_malformed_body:
  "handle_mobile_register bridge_lib 1700000000 ''tok-2'' ''8899aabbccddeeff'' home_node
     (Some ''Bearer secret'') ''[]'' = Inl AttributeError
   \<and> handle_mobile_register bridge_lib 1700000000 ''tok-2'' ''8899aabbccddeeff'' home_node
     None ''device_name=Pixel'' = Inl JSONDecodeError"
  by (simp add: handle_mobile_register_def bridge_lib_def table_lib_def forged_payload_def)

theorem mobile_register_checks_presence_only_witness:
  "json_loads bridge_lib ''{\"device_name\": \"Pixel\"}'' = Inr (JDict [(''device_name'', JStr ''Pixel'')])
   \<and> (\<exists>st' r. handle_mobile_register bridge_lib 1700000000 ''tok-2'' ''8899aabbccddeeff'' home_node
                  (Some ''anything at all'') ''{\"device_name\": \"Pixel\"}'' = Inr (st', r)
          \<and> status r = 200
          \<and> (\<exists>td. map_of (mobile_tokens st') ''tok-2'' = Some td \<and> mt_expires td = 1702592000))"
proof -
  have ld: "json_loads bridge_lib ''{\"device_name\": \"Pixel\"}''
              = Inr (JDict [(''device_name'', JStr ''Pixel'')])"
    by (simp add: bridge_lib_def table_lib_def forged_payload_def)
  from mobile_register_checks_presence_only [OF ld, of 1700000000 "''tok-2''" "''8899aabbccddeeff''"
      home_node "Some ''anything at all''"]
  obtain st' r where
    r: "handle_mobile_register bridge_lib 1700000000 ''tok-2'' ''8899aabbccddeeff'' home_node
          (Some ''anything at all'') ''{\"device_name\": \"Pixel\"}'' = Inr (st', r)"
    and s: "status r \<noteq> 401"
    and t: "status r \<noteq> 401 \<longrightarrow> status r = 200
              \<and> (\<exists>td. map_of (mobile_tokens st') ''tok-2'' = Some td
                     \<and> mt_created td = 1700000000 \<and> mt_expires td = 1700000000 + 30 * 86400)"
    by auto
  from s t have "status r = 200"
    and "\<exists>td. map_of (mobile_tokens st') ''tok-2'' = Some td \<and> mt_expires td = 1702592000"
    by auto
  with r ld show ?thesis by blast
qed

section \<open>Traces on a node with sharing disabled\<close>

text \<open>
  Claim C1 says that with sharing disabled a submitted trace stays on the node: it is not
  pushed to any peer and no full-sync response contains it. On the node above, with
  \<open>share_data\<close> False:
  \<^item> \<open>submit_traceroute\<close> skips the shared store but still runs its last loop, which posts the
    traceroute data to the first peers at \<open>/p2p/traceroute\<close>;
  \<^item> the mobile bridge stores the trace in \<open>_shared_traceroutes\<close>, and \<open>_handle_full_sync\<close>,
    which never reads \<open>_share_data\<close>, returns it to a requester with a contributing proof.
\<close>

definition mobile_trace :: SharedTraceroute where
  "mobile_trace =
     \<lparr>traceroute_id = ''a1b2c3d4e5f60718'', tr_source_peer_id = ''mobile_0011223344556677'',
      source_display_name = JStr ''Pixel'', target_peer_id = JStr ''home'',
      target_ip = JStr ''192.0.2.10'', target_display_name = JStr ''Home'',
      tr_timestamp = 1700000000, hops = JList [], total_time_ms = JNull,
      success = JBool False, path_summary = JNull, is_mobile = True,
      carrier = JNull, cell_tower_info = JNull\<rparr>"

lemma mobile_submit_on_private_node:
  "handle_mobile_traceroute bridge_lib (\<lambda>t. Inr None) 1700000000 ''a1b2c3d4e5f60718'' home_node
     (Some ''tok-1'') ''{\"target_ip\": \"192.0.2.10\", \"hops\": []}''
   = Inr (home_node\<lparr>shared_traceroutes := [(''a1b2c3d4e5f60718'', mobile_trace)]\<rparr>,
          \<lparr>status = 200, body = JDict [(''accepted'', JBool True),
                                       (''traceroute_id'', JStr ''a1b2c3d4e5f60718'')]\<rparr>)"
  by (simp add: handle_mobile_traceroute_def home_node_def bridge_lib_def table_lib_def
      forged_payload_def mobile_trace_def dict_get_def dict_set_def)

lemma forged_proof_contributes_bridge:
  "is_contributing bridge_lib 1700000060
     (forged_payload @ ''|59e0525f84b2597c7227744ae6f94362'') 1 = Inr True"
proof -
  have v: "verify bridge_lib 1700000060 (forged_payload @ ''|59e0525f84b2597c7227744ae6f94362'')
     = Inr (True, Some (JDict forged_record))"
    unfolding verify_split [OF forged_split]
    by (simp add: bridge_lib_def table_lib_def forged_record_def dict_get_def below_float_limit)
  show ?thesis
    unfolding is_contributing_def v by (simp add: forged_record_def dict_get_def)
qed

theorem private_node_leaks_traces:
  "share_data home_node = False
   \<and> (\<exists>st'. submit_traceroute (\<lambda>t. Inr None) 1700000000 ''0f1e2d3c4b5a6978'' home_node ''p2''
               [(''target'', JStr ''198.51.100.2''), (''hops'', JList [])] = Inr st'
          \<and> http_posts st' =
               [((''198.51.100.2'', 8123), ''/p2p/traceroute'',
                 JDict [(''source_peer_id'', JStr ''home''), (''source_display_name'', JStr ''Home''),
                        (''target_peer_id'', JStr ''p2''),
                        (''traceroute'', JDict [(''target'', JStr ''198.51.100.2''),
                                                (''hops'', JList [])])])])
   \<and> (\<exists>st1 r1 st2 r2.
          handle_mobile_traceroute bridge_lib (\<lambda>t. Inr None) 1700000000 ''a1b2c3d4e5f60718'' home_node
            (Some ''tok-1'') ''{\"target_ip\": \"192.0.2.10\", \"hops\": []}'' = Inr (st1, r1)
          \<and> share_data st1 = False
          \<and> handle_full_sync bridge_lib 1700000060 st1
               (Some (forged_payload @ ''|59e0525f84b2597c7227744ae6f94362'')) = Inr (st2, r2)
          \<and> body r2 = JDict [(''traceroutes'', JList [to_dict mobile_trace]),
                              (''peer_count'', JInt 1), (''timestamp'', JFloat 1700000060)])"
proof -
  have a: "share_data home_node = False" by (simp add: home_node_def)
  have b: "\<exists>st'. submit_traceroute (\<lambda>t. Inr None) 1700000000 ''0f1e2d3c4b5a6978'' home_node ''p2''
               [(''target'', JStr ''198.51.100.2''), (''hops'', JList [])] = Inr st'
          \<and> http_posts st' =
               [((''198.51.100.2'', 8123), ''/p2p/traceroute'',
                 JDict [(''source_peer_id'', JStr ''home''), (''source_display_name'', JStr ''Home''),
                        (''target_peer_id'', JStr ''p2''),
                        (''traceroute'', JDict [(''target'', JStr ''198.51.100.2''),
                                                (''hops'', JList [])])])]"
    by (simp add: submit_traceroute_def add_traceroute_to_topology_def home_node_def dict_get_def
        P2P_DHT_REPLICATION_def address_def Let_def)
  have c: "handle_full_sync bridge_lib 1700000060
             (home_node\<lparr>shared_traceroutes := [(''a1b2c3d4e5f60718'', mobile_trace)]\<rparr>)
             (Some (forged_payload @ ''|59e0525f84b2597c7227744ae6f94362''))
           = Inr (home_node\<lparr>shared_traceroutes := [(''a1b2c3d4e5f60718'', mobile_trace)]\<rparr>,
                  \<lparr>status = 200,
                   body = JDict [(''traceroutes'', JList [to_dict mobile_trace]),
                                 (''peer_count'', JInt 1), (''timestamp'', JFloat 1700000060)]\<rparr>)"
    unfolding handle_full_sync_def Let_def option.case forged_proof_contributes_bridge
    by (simp add: cleanup_old_traceroutes_def home_node_def mobile_trace_def)
  from a b c mobile_submit_on_private_node show ?thesis by simp
qed

section \<open>Bencode: decoding an encoding\<close>

declare str_nat.simps [simp del]

lemma digit_char_props:
  assumes "d < 10"
  shows "isdigit (digit_char d)" and "of_char (digit_char d) - 48 = d"
    and "\<not> isspace (digit_char d)" and "of_char (digit_char d) = 48 + d"
proof -
  have "(48 + d) mod 256 = 48 + d" using assms by simp
  then have oc: "(of_char (digit_char d) :: nat) = 48 + d"
    unfolding digit_char_def by (simp add: of_char_of)
  show "of_char (digit_char d) = 48 + d" by (rule oc)
  show "isdigit (digit_char d)" unfolding isdigit_def oc using assms by simp
  show "of_char (digit_char d) - 48 = d" unfolding oc by simp
  show "\<not> isspace (digit_char d)" unfolding isspace_def oc using assms by simp
qed

lemma isdigit_facts:
  assumes "isdigit c"
  shows "c \<noteq> CHR ''e''" "c \<noteq> CHR '':''" "c \<noteq> CHR ''i''" "c \<noteq> CHR ''l''" "c \<noteq> CHR ''d''"
    "c \<noteq> CHR ''-''" "c \<noteq> CHR ''+''" "\<not> isspace c" "c \<noteq> CHR ''_''"
  using assms by (auto simp: isdigit_def isspace_def)

lemma str_nat_digits: "list_all isdigit (str_nat n) \<and> str_nat n \<noteq> []"
proof (induction n rule: str_nat.induct)
  case (1 n)
  show ?case
  proof (cases "n < 10")
    case True
    then show ?thesis by (simp add: str_nat.simps [of n] digit_char_props)
  next
    case False
    with 1 have "list_all isdigit (str_nat (n div 10))" by simp
    moreover have "isdigit (digit_char (n mod 10))" by (simp add: digit_char_props)
    ultimately show ?thesis using False by (simp add: str_nat.simps [of n])
  qed
qed

lemma digits_value_all_digits:
  "ds \<noteq> [] \<Longrightarrow> list_all isdigit ds \<Longrightarrow>
     digits_value acc ds = Some (foldl (\<lambda>a c. 10 * a + (of_char c - 48)) acc ds)"
  by (induction acc ds rule: digits_value.induct) auto

lemma foldl_str_nat: "foldl (\<lambda>a c. 10 * a + (of_char c - 48)) 0 (str_nat n) = n"
proof (induction n rule: str_nat.induct)
  case (1 n)
  show ?case
  proof (cases "n < 10")
    case True
    then show ?thesis by (simp add: str_nat.simps [of n] digit_char_props)
  next
    case False
    with 1 have "foldl (\<lambda>a c. 10 * a + (of_char c - 48)) 0 (str_nat (n div 10)) = n div 10"
      by simp
    then show ?thesis using False by (simp add: str_nat.simps [of n] digit_char_props)
  qed
qed

lemma parse_nat_str_nat: "parse_nat (str_nat n) = Some n"
proof -
  from str_nat_digits [of n] obtain c cs where s: "str_nat n = c # cs" and d: "isdigit c"
    by (cases "str_nat n") auto
  have "digits_value 0 (str_nat n) = Some n"
    using digits_value_all_digits [of "str_nat n" 0] str_nat_digits [of n] foldl_str_nat [of n]
    by simp
  then show ?thesis unfolding parse_nat_def using s d by simp
qed

lemma strip_id:
  assumes "s \<noteq> []" and "\<not> isspace (hd s)" and "\<not> isspace (last s)"
  shows "strip s = s"
proof -
  from assms(1,2) have a: "dropWhile isspace s = s" by (cases s) auto
  from assms(1,3) have "\<not> isspace (hd (rev s))" by (simp add: hd_rev)
  with assms(1) have b: "dropWhile isspace (rev s) = rev s" by (cases "rev s") auto
  show ?thesis unfolding strip_def a b by simp
qed

lemma str_nat_ends:
  "isdigit (hd (str_nat n))" "isdigit (last (str_nat n))"
  using str_nat_digits [of n]
  by (cases "str_nat n"; simp add: list_all_iff)+

lemma int_of_bytes_str_nat: "int_of_bytes (str_nat n) = Inr (int n)"
proof -
  have ne: "str_nat n \<noteq> []" using str_nat_digits by blast
  have st: "strip (str_nat n) = str_nat n"
    using strip_id [OF ne] str_nat_ends [of n] isdigit_facts(8) by blast
  obtain c cs where s: "str_nat n = c # cs" using ne by (cases "str_nat n") auto
  with str_nat_ends(1) [of n] have d: "isdigit c" by simp
  have p: "parse_nat (c # cs) = Some n" using parse_nat_str_nat [of n] s by simp
  show ?thesis
    unfolding int_of_bytes_def st using isdigit_facts [OF d] p by (simp add: s)
qed

lemma int_of_bytes_str_int: "int_of_bytes (str_int i) = Inr i"
proof (cases "i < 0")
  case False
  then show ?thesis using int_of_bytes_str_nat [of "nat i"] by (simp add: str_int_def)
next
  case True
  let ?s = "str_nat (nat (- i))"
  have ne: "?s \<noteq> []" using str_nat_digits by blast
  have l: "last (CHR ''-'' # ?s) = last ?s" using ne by simp
  have sp: "\<not> isspace CHR ''-''" by (simp add: isspace_def)
  have st: "strip (CHR ''-'' # ?s) = CHR ''-'' # ?s"
    using strip_id [of "CHR ''-'' # ?s"] sp l str_nat_ends(2) [of "nat (- i)"] isdigit_facts(8)
    by simp
  show ?thesis
    unfolding int_of_bytes_def str_int_def using True st parse_nat_str_nat [of "nat (- i)"]
    by simp
qed

lemma split_at_append:
  assumes "c \<notin> set xs"
  shows "split_at c (xs @ c # rest) = Some (xs, rest)"
proof -
  have ne: "\<And>x. x \<in> set xs \<Longrightarrow> x \<noteq> c" using assms by auto
  have t: "takeWhile (\<lambda>x. x \<noteq> c) (xs @ c # rest) = xs"
    using takeWhile_append2 [of xs "\<lambda>x. x \<noteq> c" "c # rest", OF ne] by simp
  have d: "dropWhile (\<lambda>x. x \<noteq> c) (xs @ c # rest) = c # rest"
    using dropWhile_append2 [of xs "\<lambda>x. x \<noteq> c" "c # rest", OF ne] by simp
  show ?thesis unfolding split_at_def t d by simp
qed

lemma str_nat_no_sep: "CHR '':'' \<notin> set (str_nat n)" "CHR ''e'' \<notin> set (str_nat n)"
  using str_nat_digits [of n] isdigit_facts(1,2) by (auto simp: list_all_iff)

lemma str_int_no_e: "CHR ''e'' \<notin> set (str_int i)"
  using str_nat_no_sep(2) by (simp add: str_int_def)


text \<open>What decoding an encoding yields: the value with the items of every dict sorted by key.\<close>

function sorted_form :: "bval \<Rightarrow> bval" where
  "sorted_form (BInt i) = BInt i"
| "sorted_form (BBytes s) = BBytes s"
| "sorted_form (BList xs) = BList (map sorted_form xs)"
| "sorted_form (BDict items) =
     (case sorted_items items of
        Inl e \<Rightarrow> BDict items
      | Inr sorted' \<Rightarrow> BDict (map (\<lambda>(k, v). (k, sorted_form v)) sorted'))"
  by pat_completeness auto
termination
proof (relation "measure size")
  show "wf (measure size)" by simp
next
  fix xs :: "bval list" and x
  assume "x \<in> set xs"
  then show "(x, BList xs) \<in> measure size"
    by (induction xs) auto
next
  fix items sorted' :: "(bkey \<times> bval) list" and x :: "bkey \<times> bval" and k v
  assume s: "sorted_items items = Inr sorted'" and x: "x \<in> set sorted'" and kv: "(k, v) = x"
  from s have "set sorted' = set items" by (rule sorted_items_set)
  with x kv have "(k, v) \<in> set items" by simp
  then show "(v, BDict items) \<in> measure size"
    by (induction items) auto
qed

lemma bdecode_int:
  "bdecode (Suc n) (''i'' @ str_int i @ ''e'' @ rest) = Inr (BInt i, rest)"
  using split_at_append [OF str_int_no_e, of i rest]
  by (simp add: int_of_bytes_str_int)

lemma bdecode_bytes:
  "bdecode (Suc n) (encode_bytes s @ rest) = Inr (BBytes s, rest)"
proof -
  let ?p = "str_nat (length s)"
  obtain c cs where p: "?p = c # cs" using str_nat_digits [of "length s"] by (cases ?p) auto
  with str_nat_ends(1) [of "length s"] have d: "isdigit c" by simp
  have sp: "split_at CHR '':'' (?p @ CHR '':'' # s @ rest) = Some (?p, s @ rest)"
    by (rule split_at_append [OF str_nat_no_sep(1)])
  have e: "encode_bytes s @ rest = c # cs @ CHR '':'' # s @ rest"
    by (simp add: encode_bytes_def p)
  have sp': "split_at CHR '':'' (c # cs @ CHR '':'' # s @ rest) = Some (c # cs, s @ rest)"
    using sp by (simp add: p)
  have i: "int_of_bytes (c # cs) = Inr (int (length s))"
    using int_of_bytes_str_nat [of "length s"] by (simp add: p)
  show ?thesis
    unfolding e using isdigit_facts [OF d] d sp' i by simp
qed

fun key_value :: "bkey \<Rightarrow> bval" where
  "key_value (KInt i) = BInt i"
| "key_value (KBytes s) = BBytes s"

lemma bdecode_key:
  "bdecode (Suc n) (encode_key k @ rest) = Inr (key_value k, rest)"
  using bdecode_int [of n _ rest] bdecode_bytes [of n _ rest] by (cases k) simp_all

lemma to_key_key_value: "to_key (key_value k) = Some k"
  by (cases k) simp_all

lemma encode_bytes_head: "encode_bytes s \<noteq> [] \<and> hd (encode_bytes s) \<noteq> CHR ''e''"
  using str_nat_digits [of "length s"] str_nat_ends(1) [of "length s"] isdigit_facts(1)
  by (cases "str_nat (length s)") (auto simp: encode_bytes_def)

lemma encode_key_head: "encode_key k \<noteq> [] \<and> hd (encode_key k) \<noteq> CHR ''e''"
  using encode_bytes_head by (cases k) simp_all

lemma bencode_encode_head:
  "bencode_encode v = Inr bs \<Longrightarrow> bs \<noteq> [] \<and> hd bs \<noteq> CHR ''e''"
  using encode_bytes_head by (cases v) (auto split: sum.splits)

lemma take1_not_e: "bs \<noteq> [] \<Longrightarrow> hd bs \<noteq> CHR ''e'' \<Longrightarrow> take 1 (bs @ sfx) \<noteq> ''e''"
  by (cases bs) auto


lemma join_results_Cons:
  "join_results (r # rs) = Inr s \<Longrightarrow> \<exists>b t. r = Inr b \<and> join_results rs = Inr t \<and> s = b @ t"
  by (cases r) (auto split: sum.splits)

lemma bdecode_list_encoded:
  assumes "\<And>x bs n rest. x \<in> set xs \<Longrightarrow> bencode_encode x = Inr bs \<Longrightarrow> 2 * length bs + 1 \<le> n \<Longrightarrow>
             bdecode n (bs @ rest) = Inr (sorted_form x, rest)"
    and "join_results (map bencode_encode xs) = Inr s"
    and "2 * length s + 2 \<le> n"
  shows "bdecode_list n (s @ CHR ''e'' # rest) acc = Inr (acc @ map sorted_form xs, rest)"
  using assms
proof (induction xs arbitrary: s n acc)
  case Nil
  then obtain m where "n = Suc m" by (cases n) auto
  with Nil show ?case by simp
next
  case (Cons x xs)
  from join_results_Cons [of "bencode_encode x" "map bencode_encode xs" s] Cons.prems(2)
  obtain b t where b: "bencode_encode x = Inr b" and t: "join_results (map bencode_encode xs) = Inr t"
    and s: "s = b @ t" by auto
  from bencode_encode_head [OF b] have hd: "b \<noteq> []" "hd b \<noteq> CHR ''e''" by auto
  from Cons.prems(3) obtain m where n: "n = Suc m" by (cases n) auto
  have lb: "1 \<le> length b" using hd(1) by (cases b) auto
  have m1: "2 * length b + 1 \<le> m" using Cons.prems(3) n s by simp
  have m2: "2 * length t + 2 \<le> m" using Cons.prems(3) n s lb by simp
  have ne: "take 1 (b @ t @ CHR ''e'' # rest) \<noteq> ''e''" by (rule take1_not_e [OF hd])
  have d: "bdecode m (b @ t @ CHR ''e'' # rest) = Inr (sorted_form x, t @ CHR ''e'' # rest)"
    by (rule Cons.prems(1) [OF _ b m1]) simp
  have r: "bdecode_list m (t @ CHR ''e'' # rest) (acc @ [sorted_form x])
             = Inr ((acc @ [sorted_form x]) @ map sorted_form xs, rest)"
    by (rule Cons.IH [OF _ t m2]) (rule Cons.prems(1), auto)
  show ?case unfolding n s using ne d r by simp
qed

lemma bdecode_dict_encoded:
  assumes "\<And>k v bs n rest. (k, v) \<in> set ss \<Longrightarrow> bencode_encode v = Inr bs \<Longrightarrow> 2 * length bs + 1 \<le> n \<Longrightarrow>
             bdecode n (bs @ rest) = Inr (sorted_form v, rest)"
    and "join_results (map (\<lambda>(k, v). case bencode_encode v of
                                    Inl e \<Rightarrow> Inl e
                                  | Inr s \<Rightarrow> Inr (encode_key k @ s)) ss) = Inr s"
    and "2 * length s + 2 \<le> n"
    and "distinct (map fst ss)"
    and "fst ` set ss \<inter> fst ` set acc = {}"
  shows "bdecode_dict n (s @ CHR ''e'' # rest) acc
           = Inr (acc @ map (\<lambda>(k, v). (k, sorted_form v)) ss, rest)"
  using assms
proof (induction ss arbitrary: s n acc)
  case Nil
  then obtain m where "n = Suc m" by (cases n) auto
  with Nil show ?case by simp
next
  case (Cons kv ss)
  obtain k v where kv: "kv = (k, v)" by (cases kv)
  from join_results_Cons [OF Cons.prems(2) [unfolded list.map]]
  obtain b t where b0: "(case kv of (k, v) \<Rightarrow> case bencode_encode v of
                                    Inl e \<Rightarrow> Inl e
                                  | Inr s \<Rightarrow> Inr (encode_key k @ s)) = Inr b"
    and t: "join_results (map (\<lambda>(k, v). case bencode_encode v of
                                    Inl e \<Rightarrow> Inl e
                                  | Inr s \<Rightarrow> Inr (encode_key k @ s)) ss) = Inr t"
    and s: "s = b @ t" by auto
  from b0 obtain bv where bv: "bencode_encode v = Inr bv" and b: "b = encode_key k @ bv"
    by (auto simp: kv split: sum.splits)
  from bencode_encode_head [OF bv] have hv: "bv \<noteq> []" by auto
  from encode_key_head [of k] have hk: "encode_key k \<noteq> []" "hd (encode_key k) \<noteq> CHR ''e''" by auto
  from Cons.prems(3) obtain m where n: "n = Suc m" by (cases n) auto
  have lk: "1 \<le> length (encode_key k)" using hk(1) by (cases "encode_key k") auto
  have lv: "1 \<le> length bv" using hv by (cases bv) auto
  have m0: "m = Suc (m - 1)" using Cons.prems(3) n by simp
  have m1: "2 * length bv + 1 \<le> m" using Cons.prems(3) n s b by simp
  have m2: "2 * length t + 2 \<le> m" using Cons.prems(3) n s b lk lv by simp
  have ne: "take 1 (encode_key k @ bv @ t @ CHR ''e'' # rest) \<noteq> ''e''"
    by (rule take1_not_e [OF hk])
  have dk: "bdecode m (encode_key k @ bv @ t @ CHR ''e'' # rest)
              = Inr (key_value k, bv @ t @ CHR ''e'' # rest)"
    using bdecode_key [of "m - 1" k "bv @ t @ CHR ''e'' # rest"] m0 by simp
  have dv: "bdecode m (bv @ t @ CHR ''e'' # rest) = Inr (sorted_form v, t @ CHR ''e'' # rest)"
    by (rule Cons.prems(1) [of k v, OF _ bv m1]) (simp add: kv)
  have fresh: "k \<notin> fst ` set acc" using Cons.prems(5) by (auto simp: kv)
  then have ds: "dict_set k (sorted_form v) acc = acc @ [(k, sorted_form v)]"
    by (simp add: dict_set_def)
  have disj: "fst ` set ss \<inter> fst ` set (acc @ [(k, sorted_form v)]) = {}"
    using Cons.prems(4,5) by (auto simp: kv)
  have dist: "distinct (map fst ss)" using Cons.prems(4) by simp
  have r: "bdecode_dict m (t @ CHR ''e'' # rest) (acc @ [(k, sorted_form v)])
             = Inr ((acc @ [(k, sorted_form v)]) @ map (\<lambda>(k, v). (k, sorted_form v)) ss, rest)"
    by (rule Cons.IH [OF _ t m2 dist disj]) (rule Cons.prems(1), auto)
  show ?case unfolding n s b using ne dk dv r ds by (simp add: to_key_key_value kv)
qed


lemma sorted_items_distinct:
  assumes "sorted_items (items :: (bkey \<times> bval) list) = Inr ss" and "distinct (map fst items)"
  shows "distinct (map fst ss)" and "length ss = length items"
proof -
  from assms(1) obtain f :: "bkey \<times> bval \<Rightarrow> int" and g :: "bkey \<times> bval \<Rightarrow> string"
    where "ss = sort_key f items \<or> ss = sort_key g items"
    by (auto simp: sorted_items_def split: if_splits)
  then have st: "set ss = set items" and d: "distinct ss = distinct items"
    and l: "length ss = length items"
    by auto
  from assms(2) have "distinct items \<and> inj_on fst (set items)" by (simp add: distinct_map)
  with st d show "distinct (map fst ss)" by (simp add: distinct_map)
  show "length ss = length items" by (rule l)
qed

lemma join_results_all:
  "join_results (map f xs) = Inr s \<Longrightarrow> x \<in> set xs \<Longrightarrow> \<exists>b. f x = Inr b"
proof (induction xs arbitrary: s)
  case Nil
  then show ?case by simp
next
  case (Cons a xs)
  from join_results_Cons [OF Cons.prems(1) [unfolded list.map]]
  obtain b t where "f a = Inr b" "join_results (map f xs) = Inr t" by auto
  with Cons show ?case by auto
qed

lemma bdecode_encoded:
  "bencode_encode v = Inr bs \<Longrightarrow> well_formed v \<Longrightarrow> 2 * length bs + 1 \<le> n \<Longrightarrow>
     bdecode n (bs @ rest) = Inr (sorted_form v, rest)"
proof (induction v arbitrary: bs n rest rule: bencode_encode.induct)
  case (1 i)
  then obtain m where "n = Suc m" by (cases n) auto
  with 1 bdecode_int [of m i rest] show ?case by auto
next
  case (2 s)
  then obtain m where "n = Suc m" by (cases n) auto
  with 2 bdecode_bytes [of m s rest] show ?case by auto
next
  case (3 xs)
  from "3.prems"(1) obtain s where j: "join_results (map bencode_encode xs) = Inr s"
    and bs: "bs = ''l'' @ s @ ''e''"
    by (auto split: sum.splits)
  from "3.prems"(3) obtain m where n: "n = Suc m" by (cases n) auto
  have m: "2 * length s + 2 \<le> m" using "3.prems"(3) n bs by simp
  have ih: "\<And>x bs n rest. x \<in> set xs \<Longrightarrow> bencode_encode x = Inr bs \<Longrightarrow> 2 * length bs + 1 \<le> n \<Longrightarrow>
             bdecode n (bs @ rest) = Inr (sorted_form x, rest)"
    using "3.IH" "3.prems"(2) by (simp add: list_all_iff)
  from bdecode_list_encoded [OF ih j m, where acc = "[]" and rest = rest]
  show ?case unfolding n bs by simp
next
  case (4 items)
  from "4.prems"(1) obtain ss s where ss: "sorted_items items = Inr ss"
    and j: "join_results (map (\<lambda>(k, v). case bencode_encode v of
                                    Inl e \<Rightarrow> Inl e
                                  | Inr s \<Rightarrow> Inr (encode_key k @ s)) ss) = Inr s"
    and bs: "bs = ''d'' @ s @ ''e''"
    by (auto split: sum.splits)
  from "4.prems"(3) obtain m where n: "n = Suc m" by (cases n) auto
  have m: "2 * length s + 2 \<le> m" using "4.prems"(3) n bs by simp
  have st: "set ss = set items" by (rule sorted_items_set [OF ss])
  have wfv: "\<And>k v. (k, v) \<in> set ss \<Longrightarrow> well_formed v"
    using "4.prems"(2) st by (auto simp: list_all_iff)
  have ih: "\<And>k v bs n rest. (k, v) \<in> set ss \<Longrightarrow> bencode_encode v = Inr bs \<Longrightarrow> 2 * length bs + 1 \<le> n \<Longrightarrow>
             bdecode n (bs @ rest) = Inr (sorted_form v, rest)"
    using "4.IH" [OF ss] wfv by blast
  have dist: "distinct (map fst ss)"
    using sorted_items_distinct(1) [OF ss] "4.prems"(2) by simp
  from bdecode_dict_encoded [OF ih j m dist, where acc = "[]" and rest = rest]
  show ?case unfolding n bs by (simp add: ss)
qed

lemma py_eq_sorted_form:
  "bencode_encode v = Inr bs \<Longrightarrow> well_formed v \<Longrightarrow> py_eq (sorted_form v) v"
proof (induction v arbitrary: bs rule: bencode_encode.induct)
  case (1 i)
  show ?case by simp
next
  case (2 s)
  show ?case by simp
next
  case (3 xs)
  from "3.prems"(1) obtain s where j: "join_results (map bencode_encode xs) = Inr s"
    by (auto split: sum.splits)
  have "py_eq (sorted_form x) x" if "x \<in> set xs" for x
  proof -
    from join_results_all [OF j that] obtain b where "bencode_encode x = Inr b" by blast
    with "3.IH" [OF that] "3.prems"(2) that show ?thesis by (auto simp: list_all_iff)
  qed
  then have "list_all (\<lambda>(x, y). py_eq x y) (map (\<lambda>x. (sorted_form x, x)) xs)"
    by (simp add: list_all_iff)
  moreover have "zip (map sorted_form xs) xs = map (\<lambda>x. (sorted_form x, x)) xs"
    by (induction xs) auto
  ultimately show ?case by simp
next
  case (4 items)
  from "4.prems"(1) obtain ss s where ss: "sorted_items items = Inr ss"
    and j: "join_results (map (\<lambda>(k, v). case bencode_encode v of
                                    Inl e \<Rightarrow> Inl e
                                  | Inr s \<Rightarrow> Inr (encode_key k @ s)) ss) = Inr s"
    by (auto split: sum.splits)
  have st: "set ss = set items" by (rule sorted_items_set [OF ss])
  have dk: "distinct (map fst items)" using "4.prems"(2) by simp
  have len: "length ss = length items" by (rule sorted_items_distinct(2) [OF ss dk])
  have each: "map_of items k = Some v \<and> py_eq (sorted_form v) v" if "(k, v) \<in> set ss" for k v
  proof -
    from that st have mem: "(k, v) \<in> set items" by simp
    with dk have mo: "map_of items k = Some v" by simp
    from join_results_all [OF j that] obtain b where
      "(case bencode_encode v of Inl e \<Rightarrow> Inl e | Inr s \<Rightarrow> Inr (encode_key k @ s)) = Inr b"
      by auto
    then obtain bv where bv: "bencode_encode v = Inr bv" by (auto split: sum.splits)
    from mem "4.prems"(2) have "well_formed v" by (auto simp: list_all_iff)
    with "4.IH" [OF ss that refl bv] mo show ?thesis by simp
  qed
  then have "list_all (\<lambda>(k, v'). case map_of items k of None \<Rightarrow> False | Some v \<Rightarrow> py_eq v' v)
               (map (\<lambda>(k, v). (k, sorted_form v)) ss)"
    by (auto simp: list_all_iff)
  with len show ?case by (simp add: ss)
qed

text \<open>
  Claim C9. For every value \<open>v\<close> made of ints, byte strings, lists and dicts (each dict
  with each key once, as a Python dict has) that the encoder encodes, decoding the
  encoding returns a value equal to \<open>v\<close> in the sense of Python's \<open>==\<close>:
  \<open>_bencode_decode(_bencode_encode(v)) == v\<close>.
\<close>

theorem bencode_roundtrip:
  assumes "well_formed v" and "bencode_encode v = Inr bs"
  shows "\<exists>v'. bencode_decode bs = Inr v' \<and> py_eq v' v"
proof -
  have "bdecode (2 * length bs + 1) (bs @ []) = Inr (sorted_form v, [])"
    by (rule bdecode_encoded [OF assms(2,1)]) simp
  then have "bencode_decode bs = Inr (sorted_form v)"
    by (simp add: bencode_decode_def)
  with py_eq_sorted_form [OF assms(2,1)] show ?thesis by simp
qed

text \<open>
  An instance: a query dict with nested dicts (byte-string keys in one, int keys in
  another), a list, a negative int and an empty byte string.
\<close>

lemma digit_char_values:
  "digit_char 0 = CHR ''0''" "digit_char 1 = CHR ''1''" "digit_char 2 = CHR ''2''"
  "digit_char 3 = CHR ''3''" "digit_char 4 = CHR ''4''" "digit_char 5 = CHR ''5''"
  "digit_char 6 = CHR ''6''" "digit_char 7 = CHR ''7''" "digit_char 8 = CHR ''8''"
  "digit_char 9 = CHR ''9''"
  by (code_simp+)

lemma digit_char_nth: "d < 10 \<Longrightarrow> digit_char d = ''0123456789'' ! d"
proof -
  assume "d < 10"
  then have "d = 0 \<or> d = 1 \<or> d = 2 \<or> d = 3 \<or> d = 4 \<or> d = 5 \<or> d = 6 \<or> d = 7 \<or> d = 8 \<or> d = 9"
    by arith
  then show ?thesis using digit_char_values by auto
qed

definition example_query :: bval where
  "example_query =
     BDict [(KBytes ''t'', BList [BInt (- 5), BBytes []]),
            (KBytes ''a'', BDict [(KBytes ''id'', BBytes ''abcdefghij''), (KBytes ''port'', BInt 6881)]),
            (KBytes ''n'', BDict [(KInt 10, BInt 0), (KInt (- 3), BBytes ''x'')])]"

lemma example_query_well_formed: "well_formed example_query"
  by (simp add: example_query_def)

lemma example_query_encoded:
  "bencode_encode example_query
     = Inr ''d1:ad2:id10:abcdefghij4:porti6881ee1:ndi-3e1:xi10ei0ee1:tli-5e0:ee''"
  unfolding example_query_def
  by (simp add: sorted_items_def encode_bytes_def str_int_def str_nat.simps digit_char_nth)

theorem bencode_roundtrip_witness:
  "well_formed example_query
   \<and> bencode_encode example_query
       = Inr ''d1:ad2:id10:abcdefghij4:porti6881ee1:ndi-3e1:xi10ei0ee1:tli-5e0:ee''
   \<and> (\<exists>v'. bencode_decode ''d1:ad2:id10:abcdefghij4:porti6881ee1:ndi-3e1:xi10ei0ee1:tli-5e0:ee''
               = Inr v' \<and> py_eq v' example_query)"
  using bencode_roundtrip [OF example_query_well_formed example_query_encoded]
    example_query_well_formed example_query_encoded
  by blast

end
